theory Spec2Isabelle
  imports Complex_Main "HOL-Library.Word"
begin

section \<open>Data model\<close>

text \<open>
  Python objects are shared and mutated in place: an action, an AI strategy and a
  projectile all hold references to the same actors. Entities therefore live in a heap
  indexed by references, and the map, the engine and the projectiles hold references.
  Object identity (\<open>is\<close>, and \<open>==\<close> on entities, which define no equality of their
  own) is equality of references.
\<close>

type_synonym ref = nat
type_synonym cell = "int \<times> int"

text \<open>\<open>exceptions.Impossible\<close>, carrying its message.\<close>

datatype error = Impossible string

text \<open>The colour tags of module \<open>color\<close> that the modelled code passes to the log.\<close>

datatype color = white | player_atk | enemy_atk | welcome_text | status_effect_applied | red

type_synonym message_log = "(string \<times> color) list"

text \<open>
  Modelled from the spec: the message log (\<open>message_log.py\<close>) is not among the sources.
  It is the logging sink of the spec: it accepts a text and a colour tag and keeps the
  order of the appended messages. The colour defaults to \<open>white\<close>.
\<close>

definition add_message :: "message_log \<Rightarrow> string \<Rightarrow> color \<Rightarrow> message_log" where
  "add_message msgs text fg = msgs @ [(text, fg)]"

subsection \<open>Text formatting\<close>

text \<open>\<open>str(n)\<close> of an integer inside an f-string: decimal digits, with a sign.\<close>

fun str_nat :: "nat \<Rightarrow> string" where
  "str_nat n = (if n < 10 then [char_of (48 + n)] else str_nat (n div 10) @ [char_of (48 + n mod 10)])"

declare str_nat.simps [simp del]

definition str_int :: "int \<Rightarrow> string" where
  "str_int i = (if i < 0 then CHR ''-'' # str_nat (nat (- i)) else str_nat (nat i))"

text \<open>\<open>str.capitalize()\<close> on ASCII text: first letter upper case, the rest lower case.\<close>

definition upper_char :: "char \<Rightarrow> char" where
  "upper_char c = (let n = (of_char c :: nat) in if 97 \<le> n \<and> n \<le> 122 then char_of (n - 32) else c)"

definition lower_char :: "char \<Rightarrow> char" where
  "lower_char c = (let n = (of_char c :: nat) in if 65 \<le> n \<and> n \<le> 90 then char_of (n + 32) else c)"

fun capitalize :: "string \<Rightarrow> string" where
  "capitalize [] = []"
| "capitalize (c # cs) = upper_char c # map lower_char cs"

subsection \<open>Fighter\<close>

text \<open>
  A timed buff as \<open>components/consumable.py\<close> stores it in \<open>fighter.temporary_buffs\<close>:
  the turns left, the expiry message with its colour, and the \<open>on_expire\<close> callback.
  The two callbacks of the sources subtract the boost from \<open>base_power\<close> or from
  \<open>base_defense\<close>; the record keeps the two amounts.
\<close>

record buff =
  turns_left :: int
  expire_power :: int
  expire_defense :: int
  expire_message :: string
  expire_color :: color

text \<open>
  Modelled from the spec: the fighter component (\<open>components/fighter.py\<close>) is not among
  the sources. The spec gives it current and maximal hp, power, defense, damage
  application and timed-buff expiry. Here hp is a stored integer, power and defense are
  the base value (which the buffs of \<open>consumable.py\<close> change) plus the bonus of the
  equipment (the \<open>power_bonus\<close> and \<open>defense_bonus\<close> that \<open>actions.py\<close> upgrades), and
  the buffs are the dictionary \<open>temporary_buffs\<close> in insertion order.
\<close>

record fighter =
  hp :: int
  max_hp :: int
  base_power :: int
  base_defense :: int
  power_bonus :: int
  defense_bonus :: int
  temporary_buffs :: "(string \<times> buff) list"

text \<open>Modelled from the spec: the properties \<open>Fighter.power\<close> and \<open>Fighter.defense\<close>.\<close>

definition power_of :: "fighter \<Rightarrow> int" where
  "power_of f = base_power f + power_bonus f"

definition defense_of :: "fighter \<Rightarrow> int" where
  "defense_of f = base_defense f + defense_bonus f"

text \<open>
  Modelled from the spec: \<open>Fighter.take_damage\<close>, the damage application of the fighter
  stat surface: the amount is subtracted from hp. (Death is handled by an external
  collaborator and is not part of this model.)
\<close>

definition take_damage :: "int \<Rightarrow> fighter \<Rightarrow> fighter" where
  "take_damage amount f = f\<lparr>hp := hp f - amount\<rparr>"

text \<open>
  Modelled from the spec: \<open>Fighter.update_temporary_buffs\<close>, the timed-buff refresh.
  Every buff loses one turn; a buff with no turn left expires: its \<open>on_expire\<close> callback
  runs, its message is logged and it leaves the dictionary.
\<close>

definition tick_buff :: "string \<times> buff \<Rightarrow> string \<times> buff" where
  "tick_buff nb = (fst nb, (snd nb)\<lparr>turns_left := turns_left (snd nb) - 1\<rparr>)"

definition expired :: "string \<times> buff \<Rightarrow> bool" where
  "expired nb = (turns_left (snd nb) \<le> 0)"

definition update_temporary_buffs :: "fighter \<Rightarrow> message_log \<Rightarrow> fighter \<times> message_log" where
  "update_temporary_buffs f msgs =
     (let ticked = map tick_buff (temporary_buffs f);
          gone = filter expired ticked
      in (f\<lparr>base_power := base_power f - sum_list (map (expire_power \<circ> snd) gone),
            base_defense := base_defense f - sum_list (map (expire_defense \<circ> snd) gone),
            temporary_buffs := filter (\<lambda>nb. \<not> expired nb) ticked\<rparr>,
          msgs @ map (\<lambda>nb. (expire_message (snd nb), expire_color (snd nb))) gone))"

subsection \<open>AI strategies, entities, map\<close>

text \<open>
  The strategy classes of \<open>components/ai.py\<close> with their own fields: the cached path,
  the cooldown, and for the two timed effects the saved previous strategy and the turns
  remaining. A strategy is owned by one actor, so it is a value inside the entity.
\<close>

datatype ai =
    HostileEnemy "cell list"
  | ConfusedEnemy "ai option" int
  | ParalyzedEnemy "ai option" int
  | HostileEnemyWithProjectile "cell list" int
  | RangedEnemy "cell list" int
  | BlacksmithAI
  | BossAI "cell list" int

text \<open>
  Modelled from the spec: \<open>entity.py\<close> is not among the sources. An entity has a
  position, a name and the \<open>blocks_movement\<close> flag that \<open>ai.py\<close> reads; an actor is an
  entity with a fighter and a nullable AI strategy. Fields carry the prefix \<open>e_\<close>.
\<close>

record entity =
  e_x :: int
  e_y :: int
  e_name :: string
  e_blocks_movement :: bool
  e_is_actor :: bool
  e_fighter :: fighter
  e_ai :: "ai option"

text \<open>Modelled from the spec: \<open>Entity.move\<close> translates the position by \<open>(dx, dy)\<close>.\<close>

definition move :: "int \<Rightarrow> int \<Rightarrow> entity \<Rightarrow> entity" where
  "move dx dy e = e\<lparr>e_x := e_x e + dx, e_y := e_y e + dy\<rparr>"

text \<open>
  Modelled from the spec: \<open>game_map.py\<close> is not among the sources. The map is the query
  surface of the spec: a bounds test, the walkable and the visible lookup by cell, and
  the entity collection (in its iteration order).
\<close>

record game_map =
  width :: int
  height :: int
  walkable :: "cell \<Rightarrow> bool"
  visible :: "cell \<Rightarrow> bool"
  entities :: "ref list"

text \<open>Modelled from the spec: \<open>GameMap.in_bounds\<close>, the bounds test of the map.\<close>

definition in_bounds :: "game_map \<Rightarrow> int \<Rightarrow> int \<Rightarrow> bool" where
  "in_bounds m x y = (0 \<le> x \<and> x < width m \<and> 0 \<le> y \<and> y < height m)"

subsection \<open>Projectiles\<close>

text \<open>
  The fields of class \<open>Projectile\<close> (prefix \<open>p_\<close>), with \<open>expanding_radius\<close> of the
  shockwave subclass. \<open>p_actor\<close> is the reference to the owner, \<open>p_hit_actors\<close> the set
  of references already hit. The display fields (symbol, colour, animation frame) are
  left out: only \<open>render\<close> uses them.
\<close>

datatype projectile_class =
  Projectile | DirectionalProjectile | ShockwaveProjectile | CrossProjectile | DiagonalProjectile

record projectile =
  p_class :: projectile_class
  p_actor :: ref
  p_x :: int
  p_y :: int
  p_range :: int
  p_damage :: int
  p_dx :: int
  p_dy :: int
  p_distance_travelled :: int
  p_done :: bool
  p_can_hit_self :: bool
  p_hit_actors :: "ref set"
  p_expanding_radius :: int

subsection \<open>World and engine\<close>

text \<open>
  What actions, strategies and projectiles read and write through \<open>self.engine\<close>: the
  entities, the map, the player, the message log and the active projectiles. None of
  them touches the scheduler fields of the engine, which are kept apart in \<open>engine\<close>.
\<close>

record world =
  heap :: "ref \<Rightarrow> entity"
  gamemap :: game_map
  player :: ref
  message_log :: message_log
  active_projectiles :: "projectile list"

datatype GameState = EXPLORATION | TURN_BASED

record engine =
  world :: world
  game_state :: GameState
  last_enemy_turn_time :: real
  enemy_turn_interval :: real

text \<open>
  Modelled from the spec: the lookups of \<open>game_map.py\<close>. \<open>actors\<close> are the entities of
  the map that are actors; the two lookups return the first blocking entity, or the
  first actor, found at the cell.
\<close>

definition at_cell :: "world \<Rightarrow> int \<Rightarrow> int \<Rightarrow> ref \<Rightarrow> bool" where
  "at_cell w x y r = (e_x (heap w r) = x \<and> e_y (heap w r) = y)"

definition actors :: "world \<Rightarrow> ref list" where
  "actors w = filter (\<lambda>r. e_is_actor (heap w r)) (entities (gamemap w))"

definition get_blocking_entity_at_location :: "world \<Rightarrow> int \<Rightarrow> int \<Rightarrow> ref option" where
  "get_blocking_entity_at_location w x y =
     find (\<lambda>r. e_blocks_movement (heap w r) \<and> at_cell w x y r) (entities (gamemap w))"

definition get_actor_at_location :: "world \<Rightarrow> int \<Rightarrow> int \<Rightarrow> ref option" where
  "get_actor_at_location w x y = find (at_cell w x y) (actors w)"

definition log_message :: "world \<Rightarrow> string \<Rightarrow> color \<Rightarrow> world" where
  "log_message w text fg = w\<lparr>message_log := add_message (message_log w) text fg\<rparr>"

definition set_entity :: "world \<Rightarrow> ref \<Rightarrow> entity \<Rightarrow> world" where
  "set_entity w r e = w\<lparr>heap := (heap w)(r := e)\<rparr>"

section \<open>Actions (\<open>actions.py\<close>)\<close>

text \<open>
  \<open>perform\<close> returns nothing and may raise \<open>Impossible\<close> after it has changed the
  state, so a performed action yields the raised error, if any, and the state it leaves.
\<close>

type_synonym outcome = "error option \<times> world"

text \<open>\<open>ActionWithDirection.dest_xy\<close>, \<open>blocking_entity\<close> and \<open>target_actor\<close>.\<close>

definition dest_xy :: "world \<Rightarrow> ref \<Rightarrow> int \<Rightarrow> int \<Rightarrow> cell" where
  "dest_xy w a dx dy = (e_x (heap w a) + dx, e_y (heap w a) + dy)"

definition target_actor :: "world \<Rightarrow> ref \<Rightarrow> int \<Rightarrow> int \<Rightarrow> ref option" where
  "target_actor w a dx dy = get_actor_at_location w (fst (dest_xy w a dx dy)) (snd (dest_xy w a dx dy))"

text \<open>\<open>WaitAction.perform\<close>.\<close>

definition wait_perform :: "world \<Rightarrow> ref \<Rightarrow> outcome" where
  "wait_perform w a = (None, w)"

text \<open>\<open>MeleeAction.perform\<close>.\<close>

definition melee_perform :: "world \<Rightarrow> ref \<Rightarrow> int \<Rightarrow> int \<Rightarrow> outcome" where
  "melee_perform w a dx dy =
     (case target_actor w a dx dy of
        None \<Rightarrow> (Some (Impossible ''Nothing to attack.''), w)
      | Some target \<Rightarrow>
          (let damage = power_of (e_fighter (heap w a)) - defense_of (e_fighter (heap w target));
               refreshed = update_temporary_buffs (e_fighter (heap w a)) (message_log w);
               w1 = (set_entity w a ((heap w a)\<lparr>e_fighter := fst refreshed\<rparr>))\<lparr>message_log := snd refreshed\<rparr>;
               attack_desc = capitalize (e_name (heap w1 a)) @ '' attacks '' @ e_name (heap w1 target);
               attack_color = (if a = player w1 then player_atk else enemy_atk)
           in if damage > 0 then
                (let w2 = log_message w1 (attack_desc @ '' for '' @ str_int damage @ '' hit points.'') attack_color;
                     f = e_fighter (heap w2 target)
                 in (None, set_entity w2 target ((heap w2 target)\<lparr>e_fighter := f\<lparr>hp := hp f - damage\<rparr>\<rparr>)))
              else (None, log_message w1 (attack_desc @ '' but does no damage.'') attack_color)))"

text \<open>\<open>MovementAction.perform\<close>.\<close>

definition movement_perform :: "world \<Rightarrow> ref \<Rightarrow> int \<Rightarrow> int \<Rightarrow> outcome" where
  "movement_perform w a dx dy =
     (let dest_x = fst (dest_xy w a dx dy); dest_y = snd (dest_xy w a dx dy)
      in if \<not> in_bounds (gamemap w) dest_x dest_y then (Some (Impossible ''That way is blocked.''), w)
         else if \<not> walkable (gamemap w) (dest_x, dest_y) then (Some (Impossible ''That way is blocked.''), w)
         else if get_blocking_entity_at_location w dest_x dest_y \<noteq> None
           then (Some (Impossible ''That way is blocked.''), w)
         else (None, set_entity w a (move dx dy (heap w a))))"

text \<open>\<open>BumpAction.perform\<close>.\<close>

definition bump_perform :: "world \<Rightarrow> ref \<Rightarrow> int \<Rightarrow> int \<Rightarrow> outcome" where
  "bump_perform w a dx dy =
     (if target_actor w a dx dy \<noteq> None then melee_perform w a dx dy
      else movement_perform w a dx dy)"

section \<open>Projectiles (\<open>projectiles.py\<close>)\<close>

text \<open>
  \<open>Projectile.check_collision\<close>. It mutates the projectile (the hit set) and the
  world (the log, the target's fighter), and returns whether an actor was hit.
\<close>

definition check_collision :: "projectile \<Rightarrow> world \<Rightarrow> int \<Rightarrow> int \<Rightarrow> bool \<times> projectile \<times> world" where
  "check_collision p w x y =
     (if \<not> in_bounds (gamemap w) x y then (False, p, w)
      else case get_actor_at_location w x y of
        None \<Rightarrow> (False, p, w)
      | Some target \<Rightarrow>
          if target \<in> p_hit_actors p then (False, p, w)
          else if target = p_actor p \<and> \<not> p_can_hit_self p then (False, p, w)
          else
            (let p' = p\<lparr>p_hit_actors := insert target (p_hit_actors p)\<rparr>;
                 damage_dealt = max 0 (p_damage p - defense_of (e_fighter (heap w target)));
                 fg = (if p_actor p = player w then player_atk else enemy_atk)
             in if damage_dealt > 0 then
                  (let w1 = log_message w
                         (''The projectile hits '' @ e_name (heap w target) @ '' for ''
                            @ str_int damage_dealt @ '' damage!'') fg
                   in (True, p', set_entity w1 target
                         ((heap w1 target)\<lparr>e_fighter := take_damage damage_dealt (e_fighter (heap w1 target))\<rparr>)))
                else
                  (True, p', log_message w
                     (''The projectile bounces off '' @ e_name (heap w target) @ ''!'') fg)))"

text \<open>The state a call of \<open>check_collision\<close> leaves, its result dropped (no caller reads it).\<close>

definition collide :: "int \<Rightarrow> int \<Rightarrow> projectile \<times> world \<Rightarrow> projectile \<times> world" where
  "collide x y s = snd (check_collision (fst s) (snd s) x y)"

text \<open>\<open>Projectile.move\<close> (straight line) and \<open>Projectile.update\<close>.\<close>

definition projectile_move :: "projectile \<times> world \<Rightarrow> projectile \<times> world" where
  "projectile_move s =
     (let p1 = (fst s)\<lparr>p_x := p_x (fst s) + p_dx (fst s), p_y := p_y (fst s) + p_dy (fst s),
                       p_distance_travelled := p_distance_travelled (fst s) + 1\<rparr>;
          w = snd s
      in if in_bounds (gamemap w) (p_x p1) (p_y p1) then
           (let s2 = collide (p_x p1) (p_y p1) (p1, w)
            in if \<not> walkable (gamemap (snd s2)) (p_x (fst s2), p_y (fst s2))
               then ((fst s2)\<lparr>p_done := True\<rparr>, snd s2)
               else if \<not> in_bounds (gamemap (snd s2)) (p_x (fst s2)) (p_y (fst s2))
                       \<or> p_distance_travelled (fst s2) \<ge> p_range (fst s2)
                 then ((fst s2)\<lparr>p_done := True\<rparr>, snd s2)
                 else s2)
         else if \<not> in_bounds (gamemap w) (p_x p1) (p_y p1) \<or> p_distance_travelled p1 \<ge> p_range p1
           then (p1\<lparr>p_done := True\<rparr>, w)
           else (p1, w))"

definition projectile_update :: "projectile \<times> world \<Rightarrow> projectile \<times> world" where
  "projectile_update s = (if \<not> p_done (fst s) then projectile_move s else s)"

text \<open>
  The offsets that the two nested \<open>range\<close> loops of \<open>ShockwaveProjectile.update\<close> pass
  to \<open>check_collision\<close>, in the order of the loops.
\<close>

definition ring_offsets :: "int \<Rightarrow> cell list" where
  "ring_offsets r =
     concat (map (\<lambda>dx. map (\<lambda>dy. (dx, dy)) (filter (\<lambda>dy. \<bar>dx\<bar> = r \<or> \<bar>dy\<bar> = r) [- r..r])) [- r..r])"

text \<open>
  A collision test at an offset from the owner: \<open>self.actor.x + dx\<close> reads the owner's
  position at the time of the test.
\<close>

definition collide_around :: "cell \<Rightarrow> projectile \<times> world \<Rightarrow> projectile \<times> world" where
  "collide_around d s =
     collide (e_x (heap (snd s) (p_actor (fst s))) + fst d) (e_y (heap (snd s) (p_actor (fst s))) + snd d) s"

text \<open>\<open>ShockwaveProjectile.update\<close>.\<close>

definition shockwave_update :: "projectile \<times> world \<Rightarrow> projectile \<times> world" where
  "shockwave_update s =
     (if p_done (fst s) then s
      else (let p1 = (fst s)\<lparr>p_expanding_radius := p_expanding_radius (fst s) + 1\<rparr>
            in if p_expanding_radius p1 > p_range p1 then (p1\<lparr>p_done := True\<rparr>, snd s)
               else fold collide_around (ring_offsets (p_expanding_radius p1)) (p1, snd s)))"

text \<open>\<open>CrossProjectile.update\<close>.\<close>

definition cross_update :: "projectile \<times> world \<Rightarrow> projectile \<times> world" where
  "cross_update s =
     (if p_done (fst s) then s
      else (let p1 = (fst s)\<lparr>p_distance_travelled := p_distance_travelled (fst s) + 1\<rparr>
            in if p_distance_travelled p1 > p_range p1 then (p1\<lparr>p_done := True\<rparr>, snd s)
               else (let cx = e_x (heap (snd s) (p_actor p1)); cy = e_y (heap (snd s) (p_actor p1));
                         d = p_distance_travelled p1;
                         s2 = fold (\<lambda>dx. collide (cx + dx) cy) [- d..d] (p1, snd s)
                     in fold (\<lambda>dy. collide cx (cy + dy)) [- d..d] s2)))"

text \<open>\<open>DiagonalProjectile.update\<close>.\<close>

definition diagonal_update :: "projectile \<times> world \<Rightarrow> projectile \<times> world" where
  "diagonal_update s =
     (if p_done (fst s) then s
      else (let p1 = (fst s)\<lparr>p_distance_travelled := p_distance_travelled (fst s) + 1\<rparr>
            in if p_distance_travelled p1 > p_range p1 then (p1\<lparr>p_done := True\<rparr>, snd s)
               else (let cx = e_x (heap (snd s) (p_actor p1)); cy = e_y (heap (snd s) (p_actor p1));
                         d = p_distance_travelled p1
                     in fold (\<lambda>c. collide (cx + fst c) (cy + snd c))
                          (concat (map (\<lambda>d. [(d, d), (d, - d), (- d, d), (- d, - d)]) [- d..d]))
                          (p1, snd s))))"

text \<open>\<open>projectile.update()\<close>, dispatched on the class of the projectile.\<close>

definition update :: "projectile \<times> world \<Rightarrow> projectile \<times> world" where
  "update s =
     (case p_class (fst s) of
        Projectile \<Rightarrow> projectile_update s
      | DirectionalProjectile \<Rightarrow> projectile_update s
      | ShockwaveProjectile \<Rightarrow> shockwave_update s
      | CrossProjectile \<Rightarrow> cross_update s
      | DiagonalProjectile \<Rightarrow> diagonal_update s)"

text \<open>\<open>n\<close> successive calls of an update method on one projectile.\<close>

fun frames :: "(projectile \<times> world \<Rightarrow> projectile \<times> world) \<Rightarrow> nat \<Rightarrow> projectile \<times> world \<Rightarrow> projectile \<times> world" where
  "frames upd 0 s = s"
| "frames upd (Suc n) s = frames upd n (upd s)"

section \<open>AI strategies (\<open>components/ai.py\<close>)\<close>

text \<open>The eight compass directions of \<open>ConfusedEnemy.perform\<close>, in the order of the source.\<close>

definition directions :: "cell list" where
  "directions = [(- 1, - 1), (0, - 1), (1, - 1), (- 1, 0), (1, 0), (- 1, 1), (0, 1), (1, 1)]"

text \<open>
  \<open>ConfusedEnemy.perform\<close>, for the strategy object that is the AI of actor \<open>a\<close>, with
  its fields \<open>previous_ai\<close> and \<open>turns_remaining\<close>. The index that \<open>random.choice\<close>
  draws is the argument \<open>pick\<close>.
\<close>

definition confused_perform :: "world \<Rightarrow> ref \<Rightarrow> ai option \<Rightarrow> int \<Rightarrow> nat \<Rightarrow> outcome" where
  "confused_perform w a previous_ai turns_remaining pick =
     (if turns_remaining \<le> 0 then
        (let w1 = log_message w (''The '' @ e_name (heap w a) @ '' is no longer confused.'') white
         in (None, set_entity w1 a ((heap w1 a)\<lparr>e_ai := previous_ai\<rparr>)))
      else
        (let direction = directions ! (pick mod 8);
             w1 = set_entity w a ((heap w a)\<lparr>e_ai := Some (ConfusedEnemy previous_ai (turns_remaining - 1))\<rparr>)
         in bump_perform w1 a (fst direction) (snd direction)))"

text \<open>
  Successive decision ticks \<open>entity.ai.perform()\<close> of actor \<open>a\<close>, one per random pick,
  for as long as its strategy is a \<open>ConfusedEnemy\<close>. A raised \<open>Impossible\<close> is
  dropped, as \<open>Engine.handle_enemy_turns\<close> does.
\<close>

fun confused_ticks :: "nat list \<Rightarrow> ref \<Rightarrow> world \<Rightarrow> world" where
  "confused_ticks [] a w = w"
| "confused_ticks (pick # picks) a w =
     (case e_ai (heap w a) of
        Some (ConfusedEnemy previous_ai turns_remaining) \<Rightarrow>
          confused_ticks picks a (snd (confused_perform w a previous_ai turns_remaining pick))
      | _ \<Rightarrow> w)"

subsection \<open>The cost grid of \<open>BaseAI.get_path_to\<close>\<close>

text \<open>
  \<open>np.array(walkable, dtype=np.int8)\<close>: one for a walkable tile, zero otherwise, as
  8-bit integers whose addition wraps.
\<close>

type_synonym cost_grid = "cell \<Rightarrow> 8 word"

definition walkable_cost :: "world \<Rightarrow> cost_grid" where
  "walkable_cost w c = (if walkable (gamemap w) c then 1 else 0)"

text \<open>The body of the loop over \<open>gamemap.entities\<close>.\<close>

definition add_entity_cost :: "world \<Rightarrow> ref \<Rightarrow> cost_grid \<Rightarrow> cost_grid" where
  "add_entity_cost w entity cost =
     (let c = (e_x (heap w entity), e_y (heap w entity))
      in if e_blocks_movement (heap w entity) \<and> cost c \<noteq> 0 then cost(c := cost c + 10) else cost)"

definition path_cost :: "world \<Rightarrow> cost_grid" where
  "path_cost w = fold (add_entity_cost w) (entities (gamemap w)) (walkable_cost w)"

text \<open>
  \<open>BaseAI.get_path_to\<close>. The path finder of the \<open>tcod\<close> library is external: it is the
  parameter \<open>path_to\<close>, which receives the cost grid, the root and the destination and
  returns the route it found. The slice \<open>[1:]\<close> drops its first cell.
\<close>

definition get_path_to :: "(cost_grid \<Rightarrow> cell \<Rightarrow> cell \<Rightarrow> cell list) \<Rightarrow> world \<Rightarrow> ref \<Rightarrow> int \<Rightarrow> int \<Rightarrow> cell list" where
  "get_path_to path_to w a dest_x dest_y =
     drop 1 (path_to (path_cost w) (e_x (heap w a), e_y (heap w a)) (dest_x, dest_y))"

section \<open>Engine (\<open>engine.py\<close>)\<close>

text \<open>
  \<open>Engine.handle_enemy_turns\<close>. \<open>entity.ai.perform()\<close> dispatches over every strategy
  of \<open>ai.py\<close>, several of which call the external path finder and random generator; the
  state that the call leaves, with a raised \<open>Impossible\<close> swallowed, is given by the
  parameter \<open>perform_ai\<close>. The set of actors without the player is visited in the order
  of the map's collection.
\<close>

definition handle_enemy_turns :: "(ref \<Rightarrow> world \<Rightarrow> world) \<Rightarrow> world \<Rightarrow> world" where
  "handle_enemy_turns perform_ai w =
     fold (\<lambda>entity w'. if e_ai (heap w' entity) \<noteq> None then perform_ai entity w' else w')
       (filter (\<lambda>r. r \<noteq> player w) (remdups (actors w))) w"

text \<open>\<open>Engine.update_projectiles\<close>: every projectile of a copy of the list is updated, and removed once done.\<close>

fun update_each :: "projectile list \<Rightarrow> world \<Rightarrow> projectile list \<times> world" where
  "update_each [] w = ([], w)"
| "update_each (p # ps) w =
     (let s = update (p, w); rest = update_each ps (snd s)
      in (if p_done (fst s) then fst rest else fst s # fst rest, snd rest))"

definition update_projectiles :: "world \<Rightarrow> world" where
  "update_projectiles w =
     (let r = update_each (active_projectiles w) w in (snd r)\<lparr>active_projectiles := fst r\<rparr>)"

text \<open>The test of the scan in \<open>Engine.update_realtime\<close>: a visible enemy.\<close>

definition visible_enemy :: "world \<Rightarrow> ref \<Rightarrow> bool" where
  "visible_enemy w entity =
     (entity \<noteq> player w \<and> e_ai (heap w entity) \<noteq> None
      \<and> visible (gamemap w) (e_x (heap w entity), e_y (heap w entity)))"

text \<open>
  The loop of \<open>update_realtime\<close> over the actors: at the first visible enemy it switches
  to turn-based mode if needed and returns from the method (\<open>Some\<close> of the engine it
  leaves); \<open>None\<close> when the loop ends without a match.
\<close>

fun spot_enemy :: "engine \<Rightarrow> ref list \<Rightarrow> engine option" where
  "spot_enemy e [] = None"
| "spot_enemy e (entity # rest) =
     (if visible_enemy (world e) entity then
        Some (if game_state e = EXPLORATION
              then e\<lparr>game_state := TURN_BASED,
                     world := log_message (world e) ''Enemy spotted! Combat started.'' enemy_atk\<rparr>
              else e)
      else spot_enemy e rest)"

text \<open>
  \<open>Engine.update_realtime\<close>; \<open>current_time\<close> is the value that \<open>time.monotonic()\<close>
  returns in the call.
\<close>

definition update_realtime :: "(ref \<Rightarrow> world \<Rightarrow> world) \<Rightarrow> real \<Rightarrow> engine \<Rightarrow> engine" where
  "update_realtime perform_ai current_time e =
     (case spot_enemy e (actors (world e)) of
        Some e' \<Rightarrow> e'
      | None \<Rightarrow>
          (let e1 = (if game_state e = TURN_BASED
                     then e\<lparr>game_state := EXPLORATION,
                            world := log_message (world e) ''Combat ended.'' welcome_text\<rparr>
                     else e);
               e2 = (if current_time - last_enemy_turn_time e1 \<ge> enemy_turn_interval e1
                     then e1\<lparr>world := handle_enemy_turns perform_ai (world e1),
                             last_enemy_turn_time := current_time\<rparr>
                     else e1)
           in e2\<lparr>world := update_projectiles (world e2)\<rparr>))"

section \<open>Runs of collision tests\<close>

text \<open>
  What happens to a projectile over its lifetime, as far as \<open>check_collision\<close> is
  concerned: a sequence of collision tests at some cells (every update method of
  \<open>projectiles.py\<close> is such a sequence), with arbitrary changes of the world between
  them (actors move, fight, are healed). \<open>hp_reductions t\<close> counts the tests of a run
  that lower the hp of actor \<open>t\<close>.
\<close>

datatype step = Collide int int | Change "world \<Rightarrow> world"

fun hp_reductions :: "ref \<Rightarrow> step list \<Rightarrow> projectile \<times> world \<Rightarrow> nat" where
  "hp_reductions t [] s = 0"
| "hp_reductions t (Collide x y # steps) s =
     (let s' = collide x y s
      in (if hp (e_fighter (heap (snd s') t)) < hp (e_fighter (heap (snd s) t)) then 1 else 0)
         + hp_reductions t steps s')"
| "hp_reductions t (Change f # steps) s = hp_reductions t steps (fst s, f (snd s))"

section \<open>Paths of straight projectiles\<close>

text \<open>
  The \<open>k\<close>-th cell on the path of a straight projectile, counted from where it is now,
  is open when it is in the bounds of the map and walkable.
\<close>

definition open_cell :: "world \<Rightarrow> projectile \<Rightarrow> nat \<Rightarrow> bool" where
  "open_cell w p k =
     (in_bounds (gamemap w) (p_x p + int k * p_dx p) (p_y p + int k * p_dy p)
      \<and> walkable (gamemap w) (p_x p + int k * p_dx p, p_y p + int k * p_dy p))"

section \<open>Invariants of a projectile's frames\<close>

text \<open>
  What the collision tests of a projectile leave as it was at the start \<open>s0\<close>: the map,
  the owner, damage, self-hit flag and range of the projectile, and of every entity the
  position, the actor flag and the defense.
\<close>

definition stage :: "projectile \<times> world \<Rightarrow> projectile \<times> world \<Rightarrow> bool" where
  "stage s0 s =
     (gamemap (snd s) = gamemap (snd s0)
      \<and> p_actor (fst s) = p_actor (fst s0) \<and> p_damage (fst s) = p_damage (fst s0)
      \<and> p_can_hit_self (fst s) = p_can_hit_self (fst s0) \<and> p_range (fst s) = p_range (fst s0)
      \<and> (\<forall>r. e_x (heap (snd s) r) = e_x (heap (snd s0) r) \<and> e_y (heap (snd s) r) = e_y (heap (snd s0) r)
             \<and> e_is_actor (heap (snd s) r) = e_is_actor (heap (snd s0) r)
             \<and> defense_of (e_fighter (heap (snd s) r)) = defense_of (e_fighter (heap (snd s0) r))))"

text \<open>
  The hp of actor \<open>t\<close> tells whether the projectile has hit it: once \<open>t\<close> is in the hit
  set its hp is the hp at the start less the damage dealt, and before that it is the hp
  at the start.
\<close>

definition tally :: "ref \<Rightarrow> projectile \<times> world \<Rightarrow> projectile \<times> world \<Rightarrow> bool" where
  "tally t s0 s =
     (hp (e_fighter (heap (snd s) t)) =
        (if t \<in> p_hit_actors (fst s)
         then hp (e_fighter (heap (snd s0) t)) - max 0 (p_damage (fst s0) - defense_of (e_fighter (heap (snd s0) t)))
         else hp (e_fighter (heap (snd s0) t))))"

section \<open>Example states\<close>

text \<open>
  A ten by ten open room with the player (reference 0) at \<open>(5, 5)\<close> and an orc
  (reference 1) just south of it, at \<open>(5, 6)\<close>.
\<close>

definition demo_fighter :: fighter where
  "demo_fighter = \<lparr>hp = 10, max_hp = 10, base_power = 3, base_defense = 0, power_bonus = 0,
     defense_bonus = 0, temporary_buffs = []\<rparr>"

definition demo_entity :: entity where
  "demo_entity = \<lparr>e_x = 0, e_y = 0, e_name = ''orc'', e_blocks_movement = True, e_is_actor = True,
     e_fighter = demo_fighter, e_ai = None\<rparr>"

definition demo_world :: world where
  "demo_world =
     \<lparr>heap = (\<lambda>_. demo_entity)(0 := demo_entity\<lparr>e_x := 5, e_y := 5, e_name := ''player''\<rparr>,
                               1 := demo_entity\<lparr>e_x := 5, e_y := 6\<rparr>),
      gamemap = \<lparr>width = 10, height = 10, walkable = (\<lambda>_. True), visible = (\<lambda>_. True), entities = [0, 1]\<rparr>,
      player = 0, message_log = [], active_projectiles = []\<rparr>"

text \<open>A projectile of the player, flying south with range 3 and damage 4.\<close>

definition demo_projectile :: projectile where
  "demo_projectile = \<lparr>p_class = Projectile, p_actor = 0, p_x = 5, p_y = 5, p_range = 3, p_damage = 4,
     p_dx = 0, p_dy = 1, p_distance_travelled = 0, p_done = False, p_can_hit_self = False,
     p_hit_actors = {}, p_expanding_radius = 0\<rparr>"

text \<open>The same room with a wall tile at \<open>(5, 7)\<close>, two cells south of the player.\<close>

definition walled_world :: world where
  "walled_world = demo_world\<lparr>gamemap := (gamemap demo_world)\<lparr>walkable := (\<lambda>c. c \<noteq> (5, 7))\<rparr>\<rparr>"

text \<open>
  A room of 21 by 21 tiles with a dragon (reference 1) at \<open>(10, 10)\<close> and the player
  (reference 0) at \<open>(12, 11)\<close>, at Chebyshev distance 2 from it; the dragon's shockwave
  of range 4 and damage 6; and the shockwave with the damage that the constructor of
  \<open>ShockwaveProjectile\<close> takes by default, 0.
\<close>

definition boss_world :: world where
  "boss_world =
     \<lparr>heap = (\<lambda>_. demo_entity)(0 := demo_entity\<lparr>e_x := 12, e_y := 11, e_name := ''player''\<rparr>,
                               1 := demo_entity\<lparr>e_x := 10, e_y := 10, e_name := ''dragon''\<rparr>),
      gamemap = \<lparr>width = 21, height = 21, walkable = (\<lambda>_. True), visible = (\<lambda>_. True), entities = [0, 1]\<rparr>,
      player = 0, message_log = [], active_projectiles = []\<rparr>"

definition demo_shockwave :: projectile where
  "demo_shockwave = \<lparr>p_class = ShockwaveProjectile, p_actor = 1, p_x = 10, p_y = 10, p_range = 4, p_damage = 6,
     p_dx = 0, p_dy = 0, p_distance_travelled = 0, p_done = False, p_can_hit_self = False,
     p_hit_actors = {}, p_expanding_radius = 0\<rparr>"

definition default_shockwave :: projectile where
  "default_shockwave = demo_shockwave\<lparr>p_damage := 0\<rparr>"

text \<open>The demo room with its orc confused for one turn, a hostile strategy saved.\<close>

definition confused_world :: world where
  "confused_world = demo_world\<lparr>heap := (heap demo_world)(1 := (heap demo_world 1)\<lparr>e_ai := Some (ConfusedEnemy (Some (HostileEnemy [])) 1)\<rparr>)\<rparr>"

text \<open>The same with the orc confused for two turns.\<close>

definition dazed_world :: world where
  "dazed_world = demo_world\<lparr>heap := (heap demo_world)(1 := (heap demo_world 1)\<lparr>e_ai := Some (ConfusedEnemy (Some (HostileEnemy [])) 2)\<rparr>)\<rparr>"

section \<open>The melee damage as the specification orders it\<close>

text \<open>
  Following the words of the specification, not the source: the timed-buff refresh is
  applied to the attacker first, and \<open>power - defense\<close> is computed after it.
\<close>

definition damage_after_refresh :: "world \<Rightarrow> ref \<Rightarrow> ref \<Rightarrow> int" where
  "damage_after_refresh w a target =
     power_of (fst (update_temporary_buffs (e_fighter (heap w a)) (message_log w)))
       - defense_of (e_fighter (heap w target))"

text \<open>
  The demo room with the orc under a strength potion of \<open>consumable.py\<close>: its base power
  is raised by 3 to 6, and the buff has one turn left.
\<close>

definition buffed_world :: world where
  "buffed_world = demo_world\<lparr>heap := (heap demo_world)
     (1 := (heap demo_world 1)\<lparr>e_fighter := demo_fighter\<lparr>base_power := 6,
        temporary_buffs := [(''strength'', \<lparr>turns_left = 1, expire_power = 3, expire_defense = 0,
           expire_message = ''You feel your power getting neutralized, your strength boost has worn off.'',
           expire_color = red\<rparr>)]\<rparr>\<rparr>)\<rparr>"

section \<open>Blocking entities on a tile\<close>

text \<open>The entities of the map that block movement and stand on cell \<open>c\<close>, the pathing actor included.\<close>

definition blockers_at :: "world \<Rightarrow> cell \<Rightarrow> ref list" where
  "blockers_at w c =
     filter (\<lambda>r. e_blocks_movement (heap w r) \<and> at_cell w (fst c) (snd c) r) (entities (gamemap w))"

text \<open>
  A stand-in for the external path finder, for the example states only: the route is
  the start followed by the destination, or the destination alone (the library's answer
  when there is no route) if the destination tile has cost zero.
\<close>

definition demo_path_to :: "cost_grid \<Rightarrow> cell \<Rightarrow> cell \<Rightarrow> cell list" where
  "demo_path_to cost start dest = (if cost dest = 0 then [dest] else [start, dest])"

section \<open>Growth of the message log\<close>

text \<open>The log of \<open>w'\<close> is the log of \<open>w\<close> with messages appended.\<close>

definition log_grows :: "world \<Rightarrow> world \<Rightarrow> bool" where
  "log_grows w w' = (\<exists>ms. message_log w' = message_log w @ ms)"

text \<open>
  Engines on the demo room, with the orc hostile and the demo projectile in flight: in
  exploration mode, in turn-based mode, and in turn-based mode with no tile visible.
\<close>

definition combat_world :: world where
  "combat_world = demo_world\<lparr>heap := (heap demo_world)(1 := (heap demo_world 1)\<lparr>e_ai := Some (HostileEnemy [])\<rparr>),
     active_projectiles := [demo_projectile]\<rparr>"

definition demo_engine :: engine where
  "demo_engine = \<lparr>world = combat_world, game_state = EXPLORATION, last_enemy_turn_time = 0,
     enemy_turn_interval = 1\<rparr>"

definition combat_engine :: engine where
  "combat_engine = demo_engine\<lparr>game_state := TURN_BASED\<rparr>"

definition dark_engine :: engine where
  "dark_engine = combat_engine\<lparr>world := combat_world\<lparr>gamemap := (gamemap combat_world)\<lparr>visible := (\<lambda>_. False)\<rparr>\<rparr>\<rparr>"

text \<open>A decision that every strategy can take: wait (all that \<open>BlacksmithAI.perform\<close> does).\<close>

definition waiting_ai :: "ref \<Rightarrow> world \<Rightarrow> world" where
  "waiting_ai entity w = snd (wait_perform w entity)"

section \<open>Properties\<close>

subsection \<open>Movement\<close>

text \<open>
  C1. A movement action succeeds if and only if the destination is in bounds, walkable
  and free of blocking entities. When it succeeds the actor's position is translated by
  \<open>(dx, dy)\<close> and nothing else changes; otherwise it raises \<open>Impossible\<close> and leaves
  the state, hence the position, as it was.
\<close>

theorem movement_perform_iff:
  "(fst (movement_perform w a dx dy) = None \<longleftrightarrow>
      in_bounds (gamemap w) (e_x (heap w a) + dx) (e_y (heap w a) + dy)
      \<and> walkable (gamemap w) (e_x (heap w a) + dx, e_y (heap w a) + dy)
      \<and> get_blocking_entity_at_location w (e_x (heap w a) + dx) (e_y (heap w a) + dy) = None)
   \<and> (fst (movement_perform w a dx dy) = None \<longrightarrow>
        snd (movement_perform w a dx dy) = set_entity w a (move dx dy (heap w a))
        \<and> e_x (heap (snd (movement_perform w a dx dy)) a) = e_x (heap w a) + dx
        \<and> e_y (heap (snd (movement_perform w a dx dy)) a) = e_y (heap w a) + dy)
   \<and> (fst (movement_perform w a dx dy) \<noteq> None \<longrightarrow>
        fst (movement_perform w a dx dy) = Some (Impossible ''That way is blocked.'')
        \<and> snd (movement_perform w a dx dy) = w)"
  by (simp add: movement_perform_def dest_xy_def Let_def set_entity_def move_def)

theorem movement_perform_iff_witness:
  "fst (movement_perform demo_world 0 1 0) = None
   \<and> e_x (heap (snd (movement_perform demo_world 0 1 0)) 0) = 6
   \<and> e_y (heap (snd (movement_perform demo_world 0 1 0)) 0) = 5
   \<and> fst (movement_perform demo_world 0 0 1) = Some (Impossible ''That way is blocked.'')
   \<and> snd (movement_perform demo_world 0 0 1) = demo_world"
proof -
  have free: "in_bounds (gamemap demo_world) (e_x (heap demo_world 0) + 1) (e_y (heap demo_world 0) + 0)
      \<and> walkable (gamemap demo_world) (e_x (heap demo_world 0) + 1, e_y (heap demo_world 0) + 0)
      \<and> get_blocking_entity_at_location demo_world (e_x (heap demo_world 0) + 1) (e_y (heap demo_world 0) + 0) = None"
    by (simp add: demo_world_def demo_entity_def in_bounds_def get_blocking_entity_at_location_def at_cell_def)
  have blocked: "get_blocking_entity_at_location demo_world (e_x (heap demo_world 0) + 0) (e_y (heap demo_world 0) + 1) \<noteq> None"
    by (simp add: demo_world_def demo_entity_def get_blocking_entity_at_location_def at_cell_def)
  have pos: "e_x (heap demo_world 0) = 5" "e_y (heap demo_world 0) = 5"
    by (simp_all add: demo_world_def)
  from movement_perform_iff [of demo_world 0 1 0] free
  have "fst (movement_perform demo_world 0 1 0) = None
   \<and> e_x (heap (snd (movement_perform demo_world 0 1 0)) 0) = e_x (heap demo_world 0) + 1
   \<and> e_y (heap (snd (movement_perform demo_world 0 1 0)) 0) = e_y (heap demo_world 0) + 0" by blast
  with pos have moved: "fst (movement_perform demo_world 0 1 0) = None
   \<and> e_x (heap (snd (movement_perform demo_world 0 1 0)) 0) = 6
   \<and> e_y (heap (snd (movement_perform demo_world 0 1 0)) 0) = 5" by simp
  from movement_perform_iff [of demo_world 0 0 1] blocked
  have "fst (movement_perform demo_world 0 0 1) = Some (Impossible ''That way is blocked.'')
   \<and> snd (movement_perform demo_world 0 0 1) = demo_world" by blast
  with moved show ?thesis by blast
qed

subsection \<open>Bump\<close>

lemma melee_with_target:
  "target_actor w a dx dy = Some t \<Longrightarrow> fst (melee_perform w a dx dy) = None"
  by (simp add: melee_perform_def Let_def)

text \<open>
  C10. When an actor stands at the destination, a bump is the melee action on the same
  state, which finds the same target and does not raise; so a bump that raises
  \<open>Impossible\<close> found no actor, is the movement action, and raises because one of the
  three preconditions of the movement fails.
\<close>

theorem bump_impossible_only_from_movement:
  "(target_actor w a dx dy \<noteq> None \<longrightarrow>
      bump_perform w a dx dy = melee_perform w a dx dy
      \<and> fst (bump_perform w a dx dy) \<noteq> Some (Impossible ''Nothing to attack.'')
      \<and> fst (bump_perform w a dx dy) = None)
   \<and> (\<forall>e. fst (bump_perform w a dx dy) = Some e \<longrightarrow>
        target_actor w a dx dy = None
        \<and> bump_perform w a dx dy = movement_perform w a dx dy
        \<and> e = Impossible ''That way is blocked.''
        \<and> \<not> (in_bounds (gamemap w) (e_x (heap w a) + dx) (e_y (heap w a) + dy)
              \<and> walkable (gamemap w) (e_x (heap w a) + dx, e_y (heap w a) + dy)
              \<and> get_blocking_entity_at_location w (e_x (heap w a) + dx) (e_y (heap w a) + dy) = None))"
proof (cases "target_actor w a dx dy")
  case None
  then have eq: "bump_perform w a dx dy = movement_perform w a dx dy"
    by (simp add: bump_perform_def)
  show ?thesis using None eq
    by (auto simp: movement_perform_def Let_def dest_xy_def split: if_splits)
next
  case (Some t)
  then have eq: "bump_perform w a dx dy = melee_perform w a dx dy"
    by (simp add: bump_perform_def)
  from Some have "fst (melee_perform w a dx dy) = None" by (rule melee_with_target)
  with Some eq show ?thesis by simp
qed

theorem bump_impossible_only_from_movement_witness:
  "target_actor demo_world 1 0 (- 1) \<noteq> None
   \<and> fst (bump_perform demo_world 1 0 (- 1)) = None
   \<and> fst (bump_perform demo_world 0 (- 6) 0) = Some (Impossible ''That way is blocked.'')
   \<and> target_actor demo_world 0 (- 6) 0 = None"
proof -
  have found: "target_actor demo_world 1 0 (- 1) \<noteq> None"
    by (simp add: target_actor_def dest_xy_def get_actor_at_location_def actors_def at_cell_def
        demo_world_def demo_entity_def)
  have raised: "fst (bump_perform demo_world 0 (- 6) 0) = Some (Impossible ''That way is blocked.'')"
    by (simp add: bump_perform_def movement_perform_def in_bounds_def target_actor_def dest_xy_def
        get_actor_at_location_def actors_def at_cell_def demo_world_def demo_entity_def)
  from bump_impossible_only_from_movement [of demo_world 1 0 "- 1"] found
  have attacked: "fst (bump_perform demo_world 1 0 (- 1)) = None" by blast
  from bump_impossible_only_from_movement [of demo_world 0 "- 6" 0] raised
  have "target_actor demo_world 0 (- 6) 0 = None" by blast
  with found raised attacked show ?thesis by blast
qed

subsection \<open>Collision tests of a projectile\<close>

lemma collide_fields:
  "p_actor (fst (collide x y s)) = p_actor (fst s)"
  "p_can_hit_self (fst (collide x y s)) = p_can_hit_self (fst s)"
  "p_damage (fst (collide x y s)) = p_damage (fst s)"
  "p_hit_actors (fst s) \<subseteq> p_hit_actors (fst (collide x y s))"
  by (auto simp: collide_def check_collision_def Let_def split: option.splits)

lemma collide_reduces:
  assumes "hp (e_fighter (heap (snd (collide x y s)) t)) < hp (e_fighter (heap (snd s) t))"
  shows "t \<notin> p_hit_actors (fst s) \<and> \<not> (t = p_actor (fst s) \<and> \<not> p_can_hit_self (fst s))
         \<and> t \<in> p_hit_actors (fst (collide x y s))"
  using assms
  by (auto simp: collide_def check_collision_def Let_def set_entity_def log_message_def take_damage_def
           split: option.splits if_splits)

lemma hp_reductions_hit:
  "t \<in> p_hit_actors (fst s) \<or> (t = p_actor (fst s) \<and> \<not> p_can_hit_self (fst s))
   \<Longrightarrow> hp_reductions t steps s = 0"
proof (induction steps arbitrary: s)
  case Nil
  then show ?case by simp
next
  case (Cons st steps)
  show ?case
  proof (cases st)
    case (Collide x y)
    from Cons.prems
    have same: "\<not> hp (e_fighter (heap (snd (collide x y s)) t)) < hp (e_fighter (heap (snd s) t))"
      using collide_reduces [where x=x and y=y and s=s and t=t] by blast
    from Cons.prems have "t \<in> p_hit_actors (fst (collide x y s))
        \<or> (t = p_actor (fst (collide x y s)) \<and> \<not> p_can_hit_self (fst (collide x y s)))"
      using collide_fields [where x=x and y=y and s=s] by auto
    then have "hp_reductions t steps (collide x y s) = 0" by (rule Cons.IH)
    with same Collide show ?thesis by (simp add: Let_def)
  next
    case (Change f)
    from Cons.prems have "t \<in> p_hit_actors (fst (fst s, f (snd s)))
        \<or> (t = p_actor (fst (fst s, f (snd s))) \<and> \<not> p_can_hit_self (fst (fst s, f (snd s))))"
      by simp
    then have "hp_reductions t steps (fst s, f (snd s)) = 0" by (rule Cons.IH)
    with Change show ?thesis by simp
  qed
qed

lemma hp_reductions_le: "hp_reductions t steps s \<le> 1"
proof (induction steps arbitrary: s)
  case Nil
  then show ?case by simp
next
  case (Cons st steps)
  show ?case
  proof (cases st)
    case (Collide x y)
    show ?thesis
    proof (cases "hp (e_fighter (heap (snd (collide x y s)) t)) < hp (e_fighter (heap (snd s) t))")
      case True
      then have "t \<in> p_hit_actors (fst (collide x y s))" using collide_reduces by blast
      then have "hp_reductions t steps (collide x y s) = 0" by (simp add: hp_reductions_hit)
      with Collide show ?thesis by (simp add: Let_def)
    next
      case False
      with Collide Cons.IH [of "collide x y s"] show ?thesis by (simp add: Let_def)
    qed
  next
    case (Change f)
    with Cons.IH [of "(fst s, f (snd s))"] show ?thesis by simp
  qed
qed

text \<open>
  C2. In any run of collision tests of one projectile, whatever else changes the world
  in between, at most one test lowers the hp of a given actor; none does once the actor
  is in the hit set; and none lowers the hp of the owner unless \<open>can_hit_self\<close> is set.
\<close>

theorem check_collision_hits_once:
  "hp_reductions t steps (p, w) \<le> 1
   \<and> (t \<in> p_hit_actors p \<longrightarrow> hp_reductions t steps (p, w) = 0)
   \<and> (t = p_actor p \<and> \<not> p_can_hit_self p \<longrightarrow> hp_reductions t steps (p, w) = 0)"
  using hp_reductions_le [of t steps "(p, w)"] hp_reductions_hit [of t "(p, w)" steps] by auto

theorem check_collision_hits_once_witness:
  "1 \<in> p_hit_actors (demo_projectile\<lparr>p_hit_actors := {1}\<rparr>)
   \<and> hp_reductions 1 [Collide 5 6, Change (\<lambda>w. w), Collide 5 6] (demo_projectile\<lparr>p_hit_actors := {1}\<rparr>, demo_world) = 0
   \<and> 0 = p_actor demo_projectile \<and> \<not> p_can_hit_self demo_projectile
   \<and> hp_reductions 0 [Collide 5 5, Collide 5 5] (demo_projectile, demo_world) = 0
   \<and> hp_reductions 1 [Collide 5 6, Change (\<lambda>w. w), Collide 5 6] (demo_projectile, demo_world) = 1"
proof -
  have marked: "1 \<in> p_hit_actors (demo_projectile\<lparr>p_hit_actors := {1}\<rparr>)" by simp
  have owner: "0 = p_actor demo_projectile \<and> \<not> p_can_hit_self demo_projectile"
    by (simp add: demo_projectile_def)
  have once: "hp_reductions 1 [Collide 5 6, Change (\<lambda>w. w), Collide 5 6] (demo_projectile, demo_world) = 1"
    by (simp add: demo_projectile_def demo_world_def demo_entity_def demo_fighter_def collide_def
        check_collision_def in_bounds_def get_actor_at_location_def actors_def at_cell_def defense_of_def
        take_damage_def set_entity_def log_message_def Let_def)
  from check_collision_hits_once [of 1 "[Collide 5 6, Change (\<lambda>w. w), Collide 5 6]"
      "demo_projectile\<lparr>p_hit_actors := {1}\<rparr>" demo_world] marked
  have a: "hp_reductions 1 [Collide 5 6, Change (\<lambda>w. w), Collide 5 6] (demo_projectile\<lparr>p_hit_actors := {1}\<rparr>, demo_world) = 0"
    by blast
  from check_collision_hits_once [of 0 "[Collide 5 5, Collide 5 5]" demo_projectile demo_world] owner
  have b: "hp_reductions 0 [Collide 5 5, Collide 5 5] (demo_projectile, demo_world) = 0"
    by blast
  from marked owner once a b show ?thesis by blast
qed

subsection \<open>Straight projectiles\<close>

lemma frames_end: "frames upd (Suc n) s = upd (frames upd n s)"
  by (induction n arbitrary: s) simp_all

lemma collide_keeps:
  "gamemap (snd (collide x y s)) = gamemap (snd s)"
  "p_x (fst (collide x y s)) = p_x (fst s)"
  "p_y (fst (collide x y s)) = p_y (fst s)"
  "p_dx (fst (collide x y s)) = p_dx (fst s)"
  "p_dy (fst (collide x y s)) = p_dy (fst s)"
  "p_range (fst (collide x y s)) = p_range (fst s)"
  "p_distance_travelled (fst (collide x y s)) = p_distance_travelled (fst s)"
  "p_done (fst (collide x y s)) = p_done (fst s)"
  "p_expanding_radius (fst (collide x y s)) = p_expanding_radius (fst s)"
  "p_class (fst (collide x y s)) = p_class (fst s)"
  by (auto simp: collide_def check_collision_def Let_def set_entity_def log_message_def split: option.splits)

lemma projectile_move_fields:
  "p_x (fst (projectile_move s)) = p_x (fst s) + p_dx (fst s)"
  "p_y (fst (projectile_move s)) = p_y (fst s) + p_dy (fst s)"
  "p_dx (fst (projectile_move s)) = p_dx (fst s)"
  "p_dy (fst (projectile_move s)) = p_dy (fst s)"
  "p_range (fst (projectile_move s)) = p_range (fst s)"
  "p_distance_travelled (fst (projectile_move s)) = p_distance_travelled (fst s) + 1"
  "gamemap (snd (projectile_move s)) = gamemap (snd s)"
  by (simp_all add: projectile_move_def Let_def collide_keeps)

lemma projectile_move_done:
  "p_done (fst (projectile_move s)) \<longleftrightarrow>
     p_done (fst s)
     \<or> \<not> in_bounds (gamemap (snd s)) (p_x (fst s) + p_dx (fst s)) (p_y (fst s) + p_dy (fst s))
     \<or> \<not> walkable (gamemap (snd s)) (p_x (fst s) + p_dx (fst s), p_y (fst s) + p_dy (fst s))
     \<or> p_distance_travelled (fst s) + 1 \<ge> p_range (fst s)"
  by (simp add: projectile_move_def Let_def collide_keeps)

lemma move_from:
  assumes "p_x (fst s) = p_x p + int n * p_dx p" "p_y (fst s) = p_y p + int n * p_dy p"
    and "p_dx (fst s) = p_dx p" "p_dy (fst s) = p_dy p" "gamemap (snd s) = gamemap w"
  shows "(in_bounds (gamemap (snd s)) (p_x (fst s) + p_dx (fst s)) (p_y (fst s) + p_dy (fst s))
          \<and> walkable (gamemap (snd s)) (p_x (fst s) + p_dx (fst s), p_y (fst s) + p_dy (fst s)))
         = open_cell w p (Suc n)"
proof -
  have "p_x (fst s) + p_dx (fst s) = p_x p + int (Suc n) * p_dx p"
       "p_y (fst s) + p_dy (fst s) = p_y p + int (Suc n) * p_dy p"
    using assms by (simp_all add: algebra_simps)
  then show ?thesis by (simp only: open_cell_def assms(5))
qed

lemma frames_flying:
  assumes "\<not> p_done p" "p_distance_travelled p = 0"
    and "\<forall>k. 1 \<le> k \<and> k \<le> n \<longrightarrow> open_cell w p k" and "int n < p_range p \<or> n = 0"
  shows "\<not> p_done (fst (frames projectile_update n (p, w)))
     \<and> p_x (fst (frames projectile_update n (p, w))) = p_x p + int n * p_dx p
     \<and> p_y (fst (frames projectile_update n (p, w))) = p_y p + int n * p_dy p
     \<and> p_dx (fst (frames projectile_update n (p, w))) = p_dx p
     \<and> p_dy (fst (frames projectile_update n (p, w))) = p_dy p
     \<and> p_range (fst (frames projectile_update n (p, w))) = p_range p
     \<and> p_distance_travelled (fst (frames projectile_update n (p, w))) = int n
     \<and> gamemap (snd (frames projectile_update n (p, w))) = gamemap w"
  using assms(3,4)
proof (induction n)
  case 0
  with assms(1,2) show ?case by simp
next
  case (Suc n)
  let ?s = "frames projectile_update n (p, w)"
  from Suc.prems have "\<forall>k. 1 \<le> k \<and> k \<le> n \<longrightarrow> open_cell w p k" "int n < p_range p \<or> n = 0"
    by auto
  then have ih: "\<not> p_done (fst ?s)" "p_x (fst ?s) = p_x p + int n * p_dx p"
      "p_y (fst ?s) = p_y p + int n * p_dy p" "p_dx (fst ?s) = p_dx p" "p_dy (fst ?s) = p_dy p"
      "p_range (fst ?s) = p_range p" "p_distance_travelled (fst ?s) = int n" "gamemap (snd ?s) = gamemap w"
    using Suc.IH by blast+
  from Suc.prems have op: "open_cell w p (Suc n)" by simp
  have upd: "projectile_update ?s = projectile_move ?s"
    using ih(1) by (simp add: projectile_update_def)
  from Suc.prems have rng: "\<not> p_distance_travelled (fst ?s) + 1 \<ge> p_range (fst ?s)"
    using ih(6,7) by simp
  have flying: "\<not> p_done (fst (projectile_move ?s))"
    using ih(1) rng op move_from [OF ih(2,3,4,5,8)] unfolding projectile_move_done by blast
  have "p_x (fst (projectile_move ?s)) = p_x p + int (Suc n) * p_dx p"
       "p_y (fst (projectile_move ?s)) = p_y p + int (Suc n) * p_dy p"
       "p_distance_travelled (fst (projectile_move ?s)) = int (Suc n)"
    using ih by (simp_all add: projectile_move_fields algebra_simps)
  with flying ih show ?case
    unfolding frames_end upd by (simp only: projectile_move_fields simp_thms)
qed

lemma frames_done_stays:
  "p_done (fst s) \<Longrightarrow> p_done (fst (frames projectile_update n s))"
  by (induction n arbitrary: s) (simp_all add: projectile_update_def)

lemma frames_add: "frames upd (m + n) s = frames upd n (frames upd m s)"
  by (induction m arbitrary: s) simp_all

text \<open>
  C7 (amended). A straight projectile that has not moved yet, with range at least
  \<open>m \<ge> 1\<close>, whose first \<open>m - 1\<close> path cells are open, and for which either \<open>m\<close> is
  the range or the \<open>m\<close>-th cell is out of bounds or not walkable, is not done after
  fewer than \<open>m\<close> update calls and is done after \<open>m\<close> calls and ever after. Unobstructed
  (\<open>m\<close> is the range \<open>R\<close>) the flag is set by the \<open>R\<close>-th call; an obstacle at the
  \<open>m\<close>-th cell, \<open>m < R\<close>, sets it by the \<open>m\<close>-th call, strictly earlier.
\<close>

theorem projectile_done_after:
  assumes "\<not> p_done p" and "p_distance_travelled p = 0"
    and "1 \<le> m" and "int m \<le> p_range p"
    and "\<forall>k. 1 \<le> k \<and> k < m \<longrightarrow> open_cell w p k"
    and "int m = p_range p \<or> \<not> open_cell w p m"
  shows "(\<forall>n<m. \<not> p_done (fst (frames projectile_update n (p, w))))
       \<and> (\<forall>n\<ge>m. p_done (fst (frames projectile_update n (p, w))))"
proof -
  have before: "\<not> p_done (fst (frames projectile_update n (p, w)))" if "n < m" for n
  proof -
    from that assms(5) have "\<forall>k. 1 \<le> k \<and> k \<le> n \<longrightarrow> open_cell w p k" by simp
    moreover from that assms(4) have "int n < p_range p \<or> n = 0" by simp
    ultimately show ?thesis using frames_flying [OF assms(1,2)] by blast
  qed
  obtain j where m: "m = Suc j" using assms(3) by (cases m) simp_all
  let ?s = "frames projectile_update j (p, w)"
  have "\<forall>k. 1 \<le> k \<and> k \<le> j \<longrightarrow> open_cell w p k" using assms(5) m by simp
  moreover have "int j < p_range p \<or> j = 0" using assms(4) m by simp
  ultimately have st: "\<not> p_done (fst ?s)" "p_x (fst ?s) = p_x p + int j * p_dx p"
      "p_y (fst ?s) = p_y p + int j * p_dy p" "p_dx (fst ?s) = p_dx p" "p_dy (fst ?s) = p_dy p"
      "p_range (fst ?s) = p_range p" "p_distance_travelled (fst ?s) = int j" "gamemap (snd ?s) = gamemap w"
    using frames_flying [OF assms(1,2), of j w] by blast+
  have "p_distance_travelled (fst ?s) + 1 \<ge> p_range (fst ?s) \<or> \<not> open_cell w p (Suc j)"
    using assms(6) st(6,7) m by auto
  then have "p_done (fst (projectile_move ?s))"
    using move_from [OF st(2,3,4,5,8)] unfolding projectile_move_done by blast
  then have at_m: "p_done (fst (frames projectile_update m (p, w)))"
    unfolding m frames_end using st(1) by (simp add: projectile_update_def)
  have after: "p_done (fst (frames projectile_update n (p, w)))" if "m \<le> n" for n
  proof -
    from that obtain d where "n = m + d" using le_Suc_ex by blast
    then show ?thesis using at_m by (simp add: frames_add frames_done_stays)
  qed
  from before after show ?thesis by blast
qed

theorem projectile_done_after_witness:
  "\<not> p_done (fst (frames projectile_update 2 (demo_projectile, demo_world)))
   \<and> p_done (fst (frames projectile_update 3 (demo_projectile, demo_world)))
   \<and> \<not> p_done (fst (frames projectile_update 1 (demo_projectile, walled_world)))
   \<and> p_done (fst (frames projectile_update 2 (demo_projectile, walled_world)))"
proof -
  have start: "\<not> p_done demo_projectile" "p_distance_travelled demo_projectile = 0"
    by (simp_all add: demo_projectile_def)
  have free: "\<forall>k. 1 \<le> k \<and> k < 3 \<longrightarrow> open_cell demo_world demo_projectile k"
    by (simp add: open_cell_def in_bounds_def demo_world_def demo_projectile_def)
  have range: "int 3 \<le> p_range demo_projectile"
    "int 3 = p_range demo_projectile \<or> \<not> open_cell demo_world demo_projectile 3"
    by (simp_all add: demo_projectile_def)
  have free': "\<forall>k. 1 \<le> k \<and> k < 2 \<longrightarrow> open_cell walled_world demo_projectile k"
  proof (intro allI impI)
    fix k :: nat assume "1 \<le> k \<and> k < 2"
    then have "k = 1" by simp
    then show "open_cell walled_world demo_projectile k"
      by (simp add: open_cell_def in_bounds_def walled_world_def demo_world_def demo_projectile_def)
  qed
  have wall: "int 2 \<le> p_range demo_projectile"
    "int 2 = p_range demo_projectile \<or> \<not> open_cell walled_world demo_projectile 2"
    by (simp_all add: open_cell_def walled_world_def demo_world_def demo_projectile_def)
  from projectile_done_after [OF start _ range(1) free range(2)]
  have a: "\<not> p_done (fst (frames projectile_update 2 (demo_projectile, demo_world)))
     \<and> p_done (fst (frames projectile_update 3 (demo_projectile, demo_world)))" by simp
  have order: "(1::nat) \<le> 2" "(1::nat) < 2" "(2::nat) \<le> 2" by simp_all
  from projectile_done_after [OF start order(1) wall(1) free' wall(2)] order(2,3)
  have b: "\<not> p_done (fst (frames projectile_update 1 (demo_projectile, walled_world)))
     \<and> p_done (fst (frames projectile_update 2 (demo_projectile, walled_world)))" by blast
  from a b show ?thesis by blast
qed

text \<open>
  The claim as stated puts the flag at the call after the range is used up, the fourth
  call for range 3. In the open room, where even a fourth path cell is open, the flag
  is set by the third call.
\<close>

theorem projectile_done_counterexample:
  "p_range demo_projectile = 3
   \<and> open_cell demo_world demo_projectile 1 \<and> open_cell demo_world demo_projectile 2
   \<and> open_cell demo_world demo_projectile 3 \<and> open_cell demo_world demo_projectile 4
   \<and> \<not> p_done (fst (frames projectile_update 2 (demo_projectile, demo_world)))
   \<and> p_done (fst (frames projectile_update 3 (demo_projectile, demo_world)))"
  by (simp add: eval_nat_numeral open_cell_def projectile_update_def projectile_move_def
      demo_projectile_def demo_world_def demo_entity_def demo_fighter_def collide_def
      check_collision_def in_bounds_def get_actor_at_location_def actors_def at_cell_def defense_of_def
      take_damage_def set_entity_def log_message_def Let_def)

subsection \<open>Shockwaves\<close>

lemma stage_refl: "stage s s"
  by (simp add: stage_def)

lemma stage_collide: "stage s0 s \<Longrightarrow> stage s0 (collide x y s)"
  by (auto simp: stage_def collide_def check_collision_def Let_def set_entity_def log_message_def
        take_damage_def defense_of_def split: option.splits)

lemma stage_lookup:
  assumes "stage s0 s"
  shows "get_actor_at_location (snd s) x y = get_actor_at_location (snd s0) x y"
proof -
  have "at_cell (snd s) x y = at_cell (snd s0) x y"
    using assms by (intro ext) (simp add: at_cell_def stage_def)
  moreover have "actors (snd s) = actors (snd s0)"
    using assms by (simp add: actors_def stage_def)
  ultimately show ?thesis by (simp add: get_actor_at_location_def)
qed

lemma lookup_at: "get_actor_at_location w x y = Some r \<Longrightarrow> at_cell w x y r \<and> r \<in> set (actors w)"
  unfolding get_actor_at_location_def by (auto simp: find_Some_iff)

lemma lookup_alone:
  assumes "t \<in> set (actors w)" "at_cell w x y t" "\<forall>r\<in>set (actors w). at_cell w x y r \<longrightarrow> r = t"
  shows "get_actor_at_location w x y = Some t"
proof (cases "get_actor_at_location w x y")
  case None
  with assms(1,2) show ?thesis
    unfolding get_actor_at_location_def by (auto simp: find_None_iff)
next
  case (Some r)
  with lookup_at [OF Some] assms(3) show ?thesis by blast
qed

lemma tally_collide:
  assumes "stage s0 s" "tally t s0 s"
  shows "tally t s0 (collide x y s)"
  using assms
  by (auto simp: tally_def stage_def collide_def check_collision_def Let_def set_entity_def log_message_def
        take_damage_def split: option.splits)

lemma collide_target:
  assumes "stage s0 s" "get_actor_at_location (snd s0) x y = Some t" "in_bounds (gamemap (snd s0)) x y"
    and "t \<noteq> p_actor (fst s0)"
  shows "t \<in> p_hit_actors (fst (collide x y s))"
  using assms stage_lookup [OF assms(1), of x y]
  by (auto simp: stage_def collide_def check_collision_def Let_def split: option.splits)

lemma collide_elsewhere:
  assumes "stage s0 s" "\<not> at_cell (snd s0) x y t"
  shows "t \<in> p_hit_actors (fst (collide x y s)) \<longleftrightarrow> t \<in> p_hit_actors (fst s)"
proof -
  have "get_actor_at_location (snd s) x y \<noteq> Some t"
    using lookup_at [of "snd s0" x y t] assms stage_lookup [OF assms(1), of x y] by auto
  then show ?thesis
    by (auto simp: collide_def check_collision_def Let_def split: option.splits)
qed

lemma ring_member: "(a, b) \<in> set (ring_offsets r) \<longleftrightarrow> max \<bar>a\<bar> \<bar>b\<bar> = r"
proof -
  have "(a, b) \<in> set (ring_offsets r) \<longleftrightarrow>
          - r \<le> a \<and> a \<le> r \<and> - r \<le> b \<and> b \<le> r \<and> (\<bar>a\<bar> = r \<or> \<bar>b\<bar> = r)"
    by (auto simp: ring_offsets_def)
  also have "\<dots> \<longleftrightarrow> max \<bar>a\<bar> \<bar>b\<bar> = r" by linarith
  finally show ?thesis .
qed

lemma collide_around_eq:
  "stage s0 s \<Longrightarrow>
   collide_around d s =
     collide (e_x (heap (snd s0) (p_actor (fst s0))) + fst d) (e_y (heap (snd s0) (p_actor (fst s0))) + snd d) s"
  by (simp add: collide_around_def stage_def)

lemma fold_around:
  assumes "t \<in> set (actors (snd s0))"
    and "in_bounds (gamemap (snd s0)) (e_x (heap (snd s0) t)) (e_y (heap (snd s0) t))"
    and "\<forall>r\<in>set (actors (snd s0)). at_cell (snd s0) (e_x (heap (snd s0) t)) (e_y (heap (snd s0) t)) r \<longrightarrow> r = t"
    and "t \<noteq> p_actor (fst s0)"
    and "stage s0 s" and "tally t s0 s"
  shows "stage s0 (fold collide_around ds s) \<and> tally t s0 (fold collide_around ds s)
     \<and> p_done (fst (fold collide_around ds s)) = p_done (fst s)
     \<and> p_expanding_radius (fst (fold collide_around ds s)) = p_expanding_radius (fst s)
     \<and> (t \<in> p_hit_actors (fst (fold collide_around ds s)) \<longleftrightarrow>
          t \<in> p_hit_actors (fst s)
          \<or> (e_x (heap (snd s0) t) - e_x (heap (snd s0) (p_actor (fst s0))),
              e_y (heap (snd s0) t) - e_y (heap (snd s0) (p_actor (fst s0)))) \<in> set ds)"
  using assms(5,6)
proof (induction ds arbitrary: s)
  case Nil
  then show ?case by simp
next
  case (Cons d ds)
  let ?cx = "e_x (heap (snd s0) (p_actor (fst s0)))" and ?cy = "e_y (heap (snd s0) (p_actor (fst s0)))"
  let ?tx = "e_x (heap (snd s0) t)" and ?ty = "e_y (heap (snd s0) t)"
  let ?s1 = "collide_around d s"
  have eq: "?s1 = collide (?cx + fst d) (?cy + snd d) s"
    using Cons.prems(1) by (rule collide_around_eq)
  have st: "stage s0 ?s1" unfolding eq using Cons.prems(1) by (rule stage_collide)
  have ta: "tally t s0 ?s1" unfolding eq using Cons.prems by (rule tally_collide)
  have keep: "p_done (fst ?s1) = p_done (fst s)" "p_expanding_radius (fst ?s1) = p_expanding_radius (fst s)"
    unfolding eq by (simp_all add: collide_keeps)
  have hit: "t \<in> p_hit_actors (fst ?s1) \<longleftrightarrow> t \<in> p_hit_actors (fst s) \<or> (?tx - ?cx, ?ty - ?cy) = d"
  proof (cases "(?tx - ?cx, ?ty - ?cy) = d")
    case True
    then have cell: "?cx + fst d = ?tx" "?cy + snd d = ?ty" by auto
    have "at_cell (snd s0) ?tx ?ty t" by (simp add: at_cell_def)
    with assms(1,3) have "get_actor_at_location (snd s0) ?tx ?ty = Some t"
      by (intro lookup_alone) auto
    with Cons.prems(1) assms(2,4) have "t \<in> p_hit_actors (fst (collide ?tx ?ty s))"
      by (intro collide_target [where ?s0.0 = s0]) auto
    with True show ?thesis unfolding eq cell by simp
  next
    case False
    then have "\<not> at_cell (snd s0) (?cx + fst d) (?cy + snd d) t"
      by (auto simp: at_cell_def)
    with Cons.prems(1) False show ?thesis
      unfolding eq by (simp add: collide_elsewhere [where ?s0.0 = s0])
  qed
  from Cons.IH [OF st ta] keep hit show ?case by auto
qed

lemma stage_fields:
  "stage s0 s \<Longrightarrow> stage s0 ((fst s)\<lparr>p_expanding_radius := k\<rparr>, snd s)"
  "stage s0 s \<Longrightarrow> stage s0 ((fst s)\<lparr>p_expanding_radius := k, p_done := b\<rparr>, snd s)"
  by (simp_all add: stage_def)

lemma tally_fields:
  "tally t s0 s \<Longrightarrow> tally t s0 ((fst s)\<lparr>p_expanding_radius := k\<rparr>, snd s)"
  "tally t s0 s \<Longrightarrow> tally t s0 ((fst s)\<lparr>p_expanding_radius := k, p_done := b\<rparr>, snd s)"
  by (simp_all add: tally_def)

lemma shockwave_done_stays:
  "p_done (fst s) \<Longrightarrow> frames shockwave_update n s = s"
  by (induction n arbitrary: s) (simp_all add: shockwave_update_def)

lemma shockwave_expanding:
  assumes "\<not> p_done p" "p_expanding_radius p = 0" "t \<notin> p_hit_actors p"
    and "t \<in> set (actors w)"
    and "in_bounds (gamemap w) (e_x (heap w t)) (e_y (heap w t))"
    and "\<forall>r\<in>set (actors w). at_cell w (e_x (heap w t)) (e_y (heap w t)) r \<longrightarrow> r = t"
    and "max \<bar>e_x (heap w t) - e_x (heap w (p_actor p))\<bar> \<bar>e_y (heap w t) - e_y (heap w (p_actor p))\<bar> = gap"
    and "1 \<le> gap"
    and "int n \<le> p_range p"
  shows "stage (p, w) (frames shockwave_update n (p, w))
     \<and> tally t (p, w) (frames shockwave_update n (p, w))
     \<and> \<not> p_done (fst (frames shockwave_update n (p, w)))
     \<and> p_expanding_radius (fst (frames shockwave_update n (p, w))) = int n
     \<and> (t \<in> p_hit_actors (fst (frames shockwave_update n (p, w))) \<longleftrightarrow> gap \<le> int n)"
  using assms(9)
proof (induction n)
  case 0
  from assms(1,2,3,8) show ?case by (simp add: stage_refl tally_def)
next
  case (Suc n)
  let ?s = "frames shockwave_update n (p, w)"
  let ?p1 = "(fst ?s)\<lparr>p_expanding_radius := p_expanding_radius (fst ?s) + 1\<rparr>"
  from Suc.prems have "int n \<le> p_range p" by simp
  with Suc.IH have ih: "stage (p, w) ?s" "tally t (p, w) ?s" "\<not> p_done (fst ?s)"
      "p_expanding_radius (fst ?s) = int n" "t \<in> p_hit_actors (fst ?s) \<longleftrightarrow> gap \<le> int n"
    by blast+
  have rng: "p_range (fst ?s) = p_range p" using ih(1) by (simp add: stage_def)
  have owner: "t \<noteq> p_actor p" using assms(7,8) by auto
  have upd: "shockwave_update ?s = fold collide_around (ring_offsets (int n + 1)) (?p1, snd ?s)"
    using ih(3,4) rng Suc.prems by (simp add: shockwave_update_def Let_def)
  have st1: "stage (p, w) (?p1, snd ?s)" using ih(1) by (rule stage_fields)
  have ta1: "tally t (p, w) (?p1, snd ?s)" using ih(2) by (rule tally_fields)
  have ring: "(e_x (heap w t) - e_x (heap w (p_actor p)), e_y (heap w t) - e_y (heap w (p_actor p)))
       \<in> set (ring_offsets (int n + 1)) \<longleftrightarrow> gap = int n + 1"
    using assms(7) by (simp add: ring_member)
  from fold_around [where ?s0.0 = "(p, w)" and t = t and s = "(?p1, snd ?s)" and ds = "ring_offsets (int n + 1)"]
    assms(4,5,6) owner st1 ta1
  have res: "stage (p, w) (shockwave_update ?s)" "tally t (p, w) (shockwave_update ?s)"
    "p_done (fst (shockwave_update ?s)) = p_done ?p1"
    "p_expanding_radius (fst (shockwave_update ?s)) = p_expanding_radius ?p1"
    "t \<in> p_hit_actors (fst (shockwave_update ?s)) \<longleftrightarrow>
       t \<in> p_hit_actors ?p1
       \<or> (e_x (heap w t) - e_x (heap w (p_actor p)), e_y (heap w t) - e_y (heap w (p_actor p)))
            \<in> set (ring_offsets (int n + 1))"
    unfolding upd by simp_all
  have "t \<in> p_hit_actors (fst (shockwave_update ?s)) \<longleftrightarrow> gap \<le> int (Suc n)"
    using res(5) ring ih(5) by auto
  with res(1,2,3,4) ih(3,4) show ?case
    unfolding frames_end by simp
qed

lemma shockwave_lifetime:
  assumes "\<not> p_done p" "p_expanding_radius p = 0" "t \<notin> p_hit_actors p"
    and "t \<in> set (actors w)"
    and "in_bounds (gamemap w) (e_x (heap w t)) (e_y (heap w t))"
    and "\<forall>r\<in>set (actors w). at_cell w (e_x (heap w t)) (e_y (heap w t)) r \<longrightarrow> r = t"
    and "max \<bar>e_x (heap w t) - e_x (heap w (p_actor p))\<bar> \<bar>e_y (heap w t) - e_y (heap w (p_actor p))\<bar> = gap"
    and "1 \<le> gap" and "gap \<le> p_range p"
  shows "(p_done (fst (frames shockwave_update n (p, w))) \<longleftrightarrow> p_range p < int n)
     \<and> p_expanding_radius (fst (frames shockwave_update n (p, w))) = min (int n) (p_range p + 1)
     \<and> (t \<in> p_hit_actors (fst (frames shockwave_update n (p, w))) \<longleftrightarrow> gap \<le> int n)
     \<and> hp (e_fighter (heap (snd (frames shockwave_update n (p, w))) t)) =
         (if gap \<le> int n
          then hp (e_fighter (heap w t)) - max 0 (p_damage p - defense_of (e_fighter (heap w t)))
          else hp (e_fighter (heap w t)))"
proof (cases "int n \<le> p_range p")
  case True
  from shockwave_expanding [OF assms(1-8) True] True show ?thesis
    by (simp add: tally_def)
next
  case False
  define m where "m = nat (p_range p)"
  have m: "int m = p_range p" using assms(8,9) by (simp add: m_def)
  with False obtain j where n: "n = Suc m + j"
    by (metis add_Suc less_iff_Suc_add linorder_not_le of_nat_less_iff)
  let ?s = "frames shockwave_update m (p, w)"
  have "int m \<le> p_range p" using m by simp
  from shockwave_expanding [OF assms(1-8) this]
  have at_m: "stage (p, w) ?s" "tally t (p, w) ?s" "\<not> p_done (fst ?s)"
    "p_expanding_radius (fst ?s) = int m" "t \<in> p_hit_actors (fst ?s) \<longleftrightarrow> gap \<le> int m"
    by blast+
  have rng: "p_range (fst ?s) = p_range p" using at_m(1) by (simp add: stage_def)
  have last: "shockwave_update ?s =
      ((fst ?s)\<lparr>p_expanding_radius := p_expanding_radius (fst ?s) + 1, p_done := True\<rparr>, snd ?s)"
    using at_m(3,4) rng m by (simp add: shockwave_update_def Let_def)
  have "frames shockwave_update n (p, w) = frames shockwave_update j (shockwave_update ?s)"
    unfolding n frames_add frames_end ..
  also have "\<dots> = shockwave_update ?s"
    by (rule shockwave_done_stays) (simp add: last)
  finally have eq: "frames shockwave_update n (p, w) =
      ((fst ?s)\<lparr>p_expanding_radius := p_expanding_radius (fst ?s) + 1, p_done := True\<rparr>, snd ?s)"
    using last by simp
  from at_m(2,4,5) m n assms(9) False show ?thesis
    unfolding eq by (simp add: tally_def)
qed

lemma shockwave_frame_tests:
  assumes "\<not> p_done p" "p_expanding_radius p = 0" "t \<notin> p_hit_actors p"
    and "t \<in> set (actors w)"
    and "in_bounds (gamemap w) (e_x (heap w t)) (e_y (heap w t))"
    and "\<forall>r\<in>set (actors w). at_cell w (e_x (heap w t)) (e_y (heap w t)) r \<longrightarrow> r = t"
    and "max \<bar>e_x (heap w t) - e_x (heap w (p_actor p))\<bar> \<bar>e_y (heap w t) - e_y (heap w (p_actor p))\<bar> = gap"
    and "1 \<le> gap"
    and "int n < p_range p"
  shows "frames shockwave_update (Suc n) (p, w) =
     fold collide_around (ring_offsets (int n + 1))
       ((fst (frames shockwave_update n (p, w)))\<lparr>p_expanding_radius := int n + 1\<rparr>,
        snd (frames shockwave_update n (p, w)))"
proof -
  let ?s = "frames shockwave_update n (p, w)"
  from assms(9) have "int n \<le> p_range p" by simp
  from shockwave_expanding [OF assms(1-8) this]
  have st: "stage (p, w) ?s" "\<not> p_done (fst ?s)" "p_expanding_radius (fst ?s) = int n"
    by blast+
  have "p_range (fst ?s) = p_range p" using st(1) by (simp add: stage_def)
  with st(2,3) assms(9) show ?thesis
    unfolding frames_end by (simp add: shockwave_update_def Let_def)
qed

text \<open>
  C8 (amended). A freshly spawned shockwave of range 4 whose owner stands at \<open>(10, 10)\<close>:
  the offsets tested in a frame are exactly those at Chebyshev distance equal to the
  radius; each of the first four updates adds one to the radius and runs the collision
  tests of that ring, centred on the owner; the radius after \<open>n\<close> calls is \<open>min n 5\<close> and
  the projectile is done exactly from the fifth call on. An actor standing alone on an
  in-bounds cell at Chebyshev distance 2 enters the hit set in the second frame, and its
  hp drops once, in that frame, by \<open>max 0 (damage - defense)\<close>: damage is applied exactly
  once when it exceeds the actor's defense, and never otherwise.
\<close>

theorem shockwave_range_4:
  assumes "p_range p = 4" and "p_expanding_radius p = 0" and "\<not> p_done p" and "p_hit_actors p = {}"
    and "e_x (heap w (p_actor p)) = 10" and "e_y (heap w (p_actor p)) = 10"
    and "t \<in> set (actors w)"
    and "max \<bar>e_x (heap w t) - 10\<bar> \<bar>e_y (heap w t) - 10\<bar> = 2"
    and "in_bounds (gamemap w) (e_x (heap w t)) (e_y (heap w t))"
    and "\<forall>r\<in>set (actors w). at_cell w (e_x (heap w t)) (e_y (heap w t)) r \<longrightarrow> r = t"
  shows "(\<forall>r d. d \<in> set (ring_offsets r) \<longleftrightarrow> max \<bar>fst d\<bar> \<bar>snd d\<bar> = r)
     \<and> (\<forall>n<4. frames shockwave_update (Suc n) (p, w) =
           fold collide_around (ring_offsets (int n + 1))
             ((fst (frames shockwave_update n (p, w)))\<lparr>p_expanding_radius := int n + 1\<rparr>,
              snd (frames shockwave_update n (p, w))))
     \<and> (\<forall>n. p_expanding_radius (fst (frames shockwave_update n (p, w))) = int (min n 5))
     \<and> (\<forall>n. p_done (fst (frames shockwave_update n (p, w))) \<longleftrightarrow> 5 \<le> n)
     \<and> (\<forall>n. t \<in> p_hit_actors (fst (frames shockwave_update n (p, w))) \<longleftrightarrow> 2 \<le> n)
     \<and> (\<forall>n. hp (e_fighter (heap (snd (frames shockwave_update n (p, w))) t)) =
           (if 2 \<le> n
            then hp (e_fighter (heap w t)) - max 0 (p_damage p - defense_of (e_fighter (heap w t)))
            else hp (e_fighter (heap w t))))"
proof -
  have fresh: "t \<notin> p_hit_actors p" using assms(4) by simp
  have gap: "max \<bar>e_x (heap w t) - e_x (heap w (p_actor p))\<bar> \<bar>e_y (heap w t) - e_y (heap w (p_actor p))\<bar> = 2"
    using assms(5,6,8) by simp
  have bounds: "(1::int) \<le> 2" "(2::int) \<le> p_range p" using assms(1) by simp_all
  note life = shockwave_lifetime [OF assms(3) assms(2) fresh assms(7) assms(9) assms(10) gap bounds]
  have ring: "\<forall>r d. d \<in> set (ring_offsets r) \<longleftrightarrow> max \<bar>fst d\<bar> \<bar>snd d\<bar> = r"
    using ring_member by (metis prod.collapse)
  have tests: "\<forall>n<4. frames shockwave_update (Suc n) (p, w) =
           fold collide_around (ring_offsets (int n + 1))
             ((fst (frames shockwave_update n (p, w)))\<lparr>p_expanding_radius := int n + 1\<rparr>,
              snd (frames shockwave_update n (p, w)))"
  proof (intro allI impI)
    fix n :: nat assume "n < 4"
    then have "int n < p_range p" using assms(1) by simp
    from shockwave_frame_tests [OF assms(3) assms(2) fresh assms(7) assms(9) assms(10) gap bounds(1) this]
    show "frames shockwave_update (Suc n) (p, w) =
           fold collide_around (ring_offsets (int n + 1))
             ((fst (frames shockwave_update n (p, w)))\<lparr>p_expanding_radius := int n + 1\<rparr>,
              snd (frames shockwave_update n (p, w)))" .
  qed
  have radius: "p_expanding_radius (fst (frames shockwave_update n (p, w))) = int (min n 5)" for n
    using life [of n] assms(1) by auto
  have fin: "p_done (fst (frames shockwave_update n (p, w))) \<longleftrightarrow> 5 \<le> n" for n
    using life [of n] assms(1) by auto
  have hit: "t \<in> p_hit_actors (fst (frames shockwave_update n (p, w))) \<longleftrightarrow> 2 \<le> n" for n
    using life [of n] by auto
  have hurt: "hp (e_fighter (heap (snd (frames shockwave_update n (p, w))) t)) =
           (if 2 \<le> n
            then hp (e_fighter (heap w t)) - max 0 (p_damage p - defense_of (e_fighter (heap w t)))
            else hp (e_fighter (heap w t)))" for n
    using life [of n] by auto
  from ring tests radius fin hit hurt show ?thesis by blast
qed

lemma boss_scene:
  "\<not> p_done demo_shockwave" "p_expanding_radius demo_shockwave = 0" "p_hit_actors demo_shockwave = {}"
  "p_range demo_shockwave = 4"
  "e_x (heap boss_world (p_actor demo_shockwave)) = 10" "e_y (heap boss_world (p_actor demo_shockwave)) = 10"
  "0 \<in> set (actors boss_world)"
  "max \<bar>e_x (heap boss_world 0) - 10\<bar> \<bar>e_y (heap boss_world 0) - 10\<bar> = 2"
  "in_bounds (gamemap boss_world) (e_x (heap boss_world 0)) (e_y (heap boss_world 0))"
  "\<forall>r\<in>set (actors boss_world). at_cell boss_world (e_x (heap boss_world 0)) (e_y (heap boss_world 0)) r \<longrightarrow> r = 0"
  "hp (e_fighter (heap boss_world 0)) = 10" "defense_of (e_fighter (heap boss_world 0)) = 0"
  by (simp_all add: demo_shockwave_def boss_world_def demo_entity_def demo_fighter_def actors_def
      at_cell_def in_bounds_def defense_of_def)

theorem shockwave_range_4_witness:
  "\<not> p_done (fst (frames shockwave_update 4 (demo_shockwave, boss_world)))
   \<and> p_done (fst (frames shockwave_update 5 (demo_shockwave, boss_world)))
   \<and> hp (e_fighter (heap (snd (frames shockwave_update 1 (demo_shockwave, boss_world))) 0)) = 10
   \<and> hp (e_fighter (heap (snd (frames shockwave_update 2 (demo_shockwave, boss_world))) 0)) = 4
   \<and> hp (e_fighter (heap (snd (frames shockwave_update 5 (demo_shockwave, boss_world))) 0)) = 4"
proof -
  note inst = shockwave_range_4 [OF boss_scene(4) boss_scene(2) boss_scene(1) boss_scene(3)
      boss_scene(5) boss_scene(6) boss_scene(7) boss_scene(8) boss_scene(9) boss_scene(10)]
  have dmg: "p_damage demo_shockwave = 6" by (simp add: demo_shockwave_def)
  from inst have fin: "\<forall>n. p_done (fst (frames shockwave_update n (demo_shockwave, boss_world))) \<longleftrightarrow> 5 \<le> n"
    by blast
  from inst have hurt: "\<forall>n. hp (e_fighter (heap (snd (frames shockwave_update n (demo_shockwave, boss_world))) 0)) =
           (if 2 \<le> n then 10 - max 0 (6 - 0) else (10::int))"
    unfolding boss_scene(11,12) dmg by blast
  have a: "\<not> p_done (fst (frames shockwave_update 4 (demo_shockwave, boss_world)))"
       "p_done (fst (frames shockwave_update 5 (demo_shockwave, boss_world)))"
    using fin by simp_all
  have b: "hp (e_fighter (heap (snd (frames shockwave_update 1 (demo_shockwave, boss_world))) 0)) = 10"
    using spec [OF hurt, of 1] by (simp del: frames.simps)
  have c: "hp (e_fighter (heap (snd (frames shockwave_update 2 (demo_shockwave, boss_world))) 0)) = 4"
       "hp (e_fighter (heap (snd (frames shockwave_update 5 (demo_shockwave, boss_world))) 0)) = 4"
    using spec [OF hurt, of 2] spec [OF hurt, of 5] by simp_all
  from a b c show ?thesis by blast
qed

text \<open>
  The claim as stated lets damage be applied exactly once whatever the projectile's
  damage is. With the default damage 0 the actor at distance 2 is never damaged: its hp
  is the same after each of the five updates.
\<close>

theorem shockwave_default_damage_counterexample:
  "p_class default_shockwave = ShockwaveProjectile \<and> p_range default_shockwave = 4
   \<and> p_damage default_shockwave = 0
   \<and> e_x (heap boss_world (p_actor default_shockwave)) = 10
   \<and> e_y (heap boss_world (p_actor default_shockwave)) = 10
   \<and> max \<bar>e_x (heap boss_world 0) - 10\<bar> \<bar>e_y (heap boss_world 0) - 10\<bar> = 2
   \<and> p_done (fst (frames shockwave_update 5 (default_shockwave, boss_world)))
   \<and> hp (e_fighter (heap (snd (frames shockwave_update 1 (default_shockwave, boss_world))) 0)) = hp (e_fighter (heap boss_world 0))
   \<and> hp (e_fighter (heap (snd (frames shockwave_update 2 (default_shockwave, boss_world))) 0)) = hp (e_fighter (heap boss_world 0))
   \<and> hp (e_fighter (heap (snd (frames shockwave_update 3 (default_shockwave, boss_world))) 0)) = hp (e_fighter (heap boss_world 0))
   \<and> hp (e_fighter (heap (snd (frames shockwave_update 4 (default_shockwave, boss_world))) 0)) = hp (e_fighter (heap boss_world 0))
   \<and> hp (e_fighter (heap (snd (frames shockwave_update 5 (default_shockwave, boss_world))) 0)) = hp (e_fighter (heap boss_world 0))"
proof -
  have scene: "\<not> p_done default_shockwave" "p_expanding_radius default_shockwave = 0"
    "0 \<notin> p_hit_actors default_shockwave"
    "max \<bar>e_x (heap boss_world 0) - e_x (heap boss_world (p_actor default_shockwave))\<bar>
         \<bar>e_y (heap boss_world 0) - e_y (heap boss_world (p_actor default_shockwave))\<bar> = 2"
    "(1::int) \<le> 2" "2 \<le> p_range default_shockwave"
    by (simp_all add: default_shockwave_def demo_shockwave_def boss_world_def demo_entity_def)
  have facts: "p_class default_shockwave = ShockwaveProjectile" "p_range default_shockwave = 4"
    "p_damage default_shockwave = 0"
    "e_x (heap boss_world (p_actor default_shockwave)) = 10"
    "e_y (heap boss_world (p_actor default_shockwave)) = 10"
    by (simp_all add: default_shockwave_def demo_shockwave_def boss_world_def demo_entity_def)
  note life = shockwave_lifetime [OF scene(1,2,3) boss_scene(7) boss_scene(9) boss_scene(10) scene(4,5,6)]
  have fin: "p_done (fst (frames shockwave_update 5 (default_shockwave, boss_world)))"
    using life [of 5] facts(2) by simp
  have same: "hp (e_fighter (heap (snd (frames shockwave_update n (default_shockwave, boss_world))) 0))
      = hp (e_fighter (heap boss_world 0))" for n
    using life [of n] facts(3) boss_scene(12) by simp
  from facts boss_scene(8) fin same [of 1] same [of 2] same [of 3] same [of 4] same [of 5]
  show ?thesis by (simp del: frames.simps)
qed

subsection \<open>Confusion\<close>

lemma bump_keeps_ai: "e_ai (heap (snd (bump_perform w a dx dy)) r) = e_ai (heap w r)"
  by (auto simp: bump_perform_def melee_perform_def movement_perform_def Let_def set_entity_def
        log_message_def move_def split: option.splits)

lemma confused_perform_ai:
  "e_ai (heap (snd (confused_perform w a previous_ai turns_remaining pick)) a) =
     (if turns_remaining \<le> 0 then previous_ai else Some (ConfusedEnemy previous_ai (turns_remaining - 1)))"
  by (simp add: confused_perform_def Let_def bump_keeps_ai set_entity_def log_message_def)

lemma confused_ticks_count:
  assumes "e_ai (heap w a) = Some (ConfusedEnemy previous_ai n)" and "int (length picks) \<le> n"
  shows "e_ai (heap (confused_ticks picks a w) a) = Some (ConfusedEnemy previous_ai (n - int (length picks)))"
  using assms
proof (induction picks arbitrary: w n)
  case Nil
  then show ?case by simp
next
  case (Cons pick picks)
  let ?w = "snd (confused_perform w a previous_ai n pick)"
  from Cons.prems have pos: "\<not> n \<le> 0" by simp
  then have "e_ai (heap ?w a) = Some (ConfusedEnemy previous_ai (n - 1))"
    by (simp add: confused_perform_ai)
  moreover from Cons.prems have "int (length picks) \<le> n - 1" by simp
  ultimately have "e_ai (heap (confused_ticks picks a ?w) a)
      = Some (ConfusedEnemy previous_ai (n - 1 - int (length picks)))"
    by (rule Cons.IH)
  with Cons.prems(1) show ?case by simp
qed

lemma confused_ticks_restore:
  assumes "e_ai (heap w a) = Some (ConfusedEnemy previous_ai n)" and "int (length picks) = n"
  shows "e_ai (heap (confused_ticks (picks @ [pick]) a w) a) = previous_ai"
  using assms
proof (induction picks arbitrary: w n)
  case Nil
  then show ?case by (simp add: confused_perform_ai)
next
  case (Cons p picks)
  let ?w = "snd (confused_perform w a previous_ai n p)"
  from Cons.prems have pos: "\<not> n \<le> 0" by simp
  then have "e_ai (heap ?w a) = Some (ConfusedEnemy previous_ai (n - 1))"
    by (simp add: confused_perform_ai)
  moreover from Cons.prems have "int (length picks) = n - 1" by simp
  ultimately have "e_ai (heap (confused_ticks (picks @ [pick]) a ?w) a) = previous_ai"
    by (rule Cons.IH)
  with Cons.prems(1) show ?case by simp
qed

lemma confused_not_previous: "Some (ConfusedEnemy previous_ai n) \<noteq> previous_ai"
proof
  assume eq: "Some (ConfusedEnemy previous_ai n) = previous_ai"
  have "size_option size (Some (ConfusedEnemy previous_ai n)) > size_option size previous_ai"
    by simp
  with eq show False by simp
qed

lemma confused_ticks_snoc:
  "confused_ticks (picks @ [pick]) a w =
     (case e_ai (heap (confused_ticks picks a w) a) of
        Some (ConfusedEnemy previous_ai turns_remaining) \<Rightarrow>
          snd (confused_perform (confused_ticks picks a w) a previous_ai turns_remaining pick)
      | _ \<Rightarrow> confused_ticks picks a w)"
proof (induction picks arbitrary: w)
  case Nil
  show ?case by (simp split: option.splits ai.splits)
next
  case (Cons p picks)
  show ?case using Cons.IH by (auto split: option.splits ai.splits)
qed

lemma directions_pick: "directions ! (pick mod 8) \<in> set directions"
  by (rule nth_mem) (simp add: directions_def)

lemma confused_tick_bumps:
  assumes "e_ai (heap w a) = Some (ConfusedEnemy previous_ai N)" and "int (length picks) = N"
    and "k < length picks"
  shows "confused_ticks (take (Suc k) picks) a w =
     snd (bump_perform
            (set_entity (confused_ticks (take k picks) a w) a
               ((heap (confused_ticks (take k picks) a w) a)
                  \<lparr>e_ai := Some (ConfusedEnemy previous_ai (N - int k - 1))\<rparr>))
            a (fst (directions ! (picks ! k mod 8))) (snd (directions ! (picks ! k mod 8))))"
proof -
  let ?w = "confused_ticks (take k picks) a w"
  from assms(2,3) have "int (length (take k picks)) \<le> N" by simp
  from confused_ticks_count [OF assms(1) this] assms(3)
  have ai: "e_ai (heap ?w a) = Some (ConfusedEnemy previous_ai (N - int k))" by simp
  from assms(2,3) have left: "\<not> N - int k \<le> 0" by simp
  have "take (Suc k) picks = take k picks @ [picks ! k]"
    using assms(3) by (simp add: take_Suc_conv_app_nth)
  then have "confused_ticks (take (Suc k) picks) a w =
      snd (confused_perform ?w a previous_ai (N - int k) (picks ! k))"
    using ai by (simp add: confused_ticks_snoc)
  with left show ?thesis by (simp add: confused_perform_def Let_def)
qed

text \<open>
  C4 (amended). A confused strategy created with \<open>N \<ge> 1\<close> turns remaining: after each of
  the first \<open>k \<le> N\<close> decision ticks the actor's AI is still the confused strategy, with
  \<open>N - k\<close> turns remaining, and is not the saved strategy; each of these \<open>N\<close> ticks is the
  bump action, in the direction drawn from the eight compass directions, on the state
  with the counter decremented; so after exactly \<open>N\<close> ticks the actor is confused with 0
  turns remaining. The next tick, the \<open>(N + 1)\<close>-th, logs that the actor is no longer
  confused and restores the saved previous strategy, changing nothing else.
\<close>

theorem confused_reverts_after:
  assumes "e_ai (heap w a) = Some (ConfusedEnemy previous_ai N)" and "1 \<le> N"
    and "int (length picks) = N"
  shows "(\<forall>k\<le>length picks.
            e_ai (heap (confused_ticks (take k picks) a w) a) = Some (ConfusedEnemy previous_ai (N - int k))
            \<and> e_ai (heap (confused_ticks (take k picks) a w) a) \<noteq> previous_ai)
     \<and> (\<forall>k<length picks.
            directions ! (picks ! k mod 8) \<in> set directions
            \<and> confused_ticks (take (Suc k) picks) a w =
                snd (bump_perform
                       (set_entity (confused_ticks (take k picks) a w) a
                          ((heap (confused_ticks (take k picks) a w) a)
                             \<lparr>e_ai := Some (ConfusedEnemy previous_ai (N - int k - 1))\<rparr>))
                       a (fst (directions ! (picks ! k mod 8))) (snd (directions ! (picks ! k mod 8)))))
     \<and> e_ai (heap (confused_ticks picks a w) a) = Some (ConfusedEnemy previous_ai 0)
     \<and> e_ai (heap (confused_ticks (picks @ [pick]) a w) a) = previous_ai
     \<and> confused_ticks (picks @ [pick]) a w =
         set_entity (log_message (confused_ticks picks a w)
                       (''The '' @ e_name (heap (confused_ticks picks a w) a) @ '' is no longer confused.'') white)
           a ((heap (confused_ticks picks a w) a)\<lparr>e_ai := previous_ai\<rparr>)"
proof -
  have early: "e_ai (heap (confused_ticks (take k picks) a w) a) = Some (ConfusedEnemy previous_ai (N - int k))"
    if "k \<le> length picks" for k
  proof -
    from that assms(3) have "int (length (take k picks)) \<le> N" by simp
    from confused_ticks_count [OF assms(1) this] that show ?thesis by simp
  qed
  have last: "e_ai (heap (confused_ticks picks a w) a) = Some (ConfusedEnemy previous_ai 0)"
    using early [of "length picks"] assms(3) by simp
  have bumps: "directions ! (picks ! k mod 8) \<in> set directions
            \<and> confused_ticks (take (Suc k) picks) a w =
                snd (bump_perform
                       (set_entity (confused_ticks (take k picks) a w) a
                          ((heap (confused_ticks (take k picks) a w) a)
                             \<lparr>e_ai := Some (ConfusedEnemy previous_ai (N - int k - 1))\<rparr>))
                       a (fst (directions ! (picks ! k mod 8))) (snd (directions ! (picks ! k mod 8))))"
    if "k < length picks" for k
    using confused_tick_bumps [OF assms(1,3) that] directions_pick by simp
  have restoring: "confused_ticks (picks @ [pick]) a w =
         set_entity (log_message (confused_ticks picks a w)
                       (''The '' @ e_name (heap (confused_ticks picks a w) a) @ '' is no longer confused.'') white)
           a ((heap (confused_ticks picks a w) a)\<lparr>e_ai := previous_ai\<rparr>)"
    using last by (simp add: confused_ticks_snoc confused_perform_def Let_def log_message_def set_entity_def)
  have still: "e_ai (heap (confused_ticks (take k picks) a w) a) = Some (ConfusedEnemy previous_ai (N - int k))
            \<and> e_ai (heap (confused_ticks (take k picks) a w) a) \<noteq> previous_ai"
    if "k \<le> length picks" for k
    using early [OF that] by (simp add: confused_not_previous)
  from still last bumps restoring confused_ticks_restore [OF assms(1,3), of pick] show ?thesis
    by blast
qed

theorem confused_reverts_after_witness:
  "e_ai (heap (confused_ticks [0] 1 confused_world) 1) = Some (ConfusedEnemy (Some (HostileEnemy [])) 0)
   \<and> e_ai (heap (confused_ticks [0, 3] 1 confused_world) 1) = Some (HostileEnemy [])
   \<and> e_ai (heap (confused_ticks [0] 1 dazed_world) 1) = Some (ConfusedEnemy (Some (HostileEnemy [])) 1)
   \<and> e_x (heap (confused_ticks [0] 1 dazed_world) 1) = 4
   \<and> e_y (heap (confused_ticks [0] 1 dazed_world) 1) = 5
   \<and> e_ai (heap (confused_ticks [0, 4] 1 dazed_world) 1) = Some (ConfusedEnemy (Some (HostileEnemy [])) 0)
   \<and> e_ai (heap (confused_ticks [0, 4, 2] 1 dazed_world) 1) = Some (HostileEnemy [])"
proof -
  have start: "e_ai (heap confused_world 1) = Some (ConfusedEnemy (Some (HostileEnemy [])) 1)"
    by (simp add: confused_world_def)
  have len: "(1::int) \<le> 1" "int (length [0::nat]) = 1" by simp_all
  note single = confused_reverts_after [OF start len, of 3]
  from single
  have "e_ai (heap (confused_ticks [0] 1 confused_world) 1) = Some (ConfusedEnemy (Some (HostileEnemy [])) 0)"
    and "e_ai (heap (confused_ticks ([0] @ [3]) 1 confused_world) 1) = Some (HostileEnemy [])"
    by blast+
  then have one: "e_ai (heap (confused_ticks [0] 1 confused_world) 1) = Some (ConfusedEnemy (Some (HostileEnemy [])) 0)
     \<and> e_ai (heap (confused_ticks [0, 3] 1 confused_world) 1) = Some (HostileEnemy [])"
    by (simp del: confused_ticks.simps)
  have start2: "e_ai (heap dazed_world 1) = Some (ConfusedEnemy (Some (HostileEnemy [])) 2)"
    by (simp add: dazed_world_def)
  have len2: "(1::int) \<le> 2" "int (length [0::nat, 4]) = 2" by simp_all
  note two = confused_reverts_after [OF start2 len2, of 2]
  from two
  have "e_ai (heap (confused_ticks [0, 4] 1 dazed_world) 1) = Some (ConfusedEnemy (Some (HostileEnemy [])) 0)"
    and "e_ai (heap (confused_ticks ([0, 4] @ [2]) 1 dazed_world) 1) = Some (HostileEnemy [])"
    by blast+
  then have ends: "e_ai (heap (confused_ticks [0, 4] 1 dazed_world) 1) = Some (ConfusedEnemy (Some (HostileEnemy [])) 0)
     \<and> e_ai (heap (confused_ticks [0, 4, 2] 1 dazed_world) 1) = Some (HostileEnemy [])"
    by (simp del: confused_ticks.simps)
  from two have "\<forall>k\<le>length [0::nat, 4].
      e_ai (heap (confused_ticks (take k [0, 4]) 1 dazed_world) 1)
        = Some (ConfusedEnemy (Some (HostileEnemy [])) (2 - int k))
      \<and> e_ai (heap (confused_ticks (take k [0, 4]) 1 dazed_world) 1) \<noteq> Some (HostileEnemy [])"
    by blast
  then have "Suc 0 \<le> length [0::nat, 4] \<longrightarrow>
      e_ai (heap (confused_ticks (take (Suc 0) [0, 4]) 1 dazed_world) 1)
        = Some (ConfusedEnemy (Some (HostileEnemy [])) (2 - int (Suc 0)))"
    by blast
  then have mid: "e_ai (heap (confused_ticks [0] 1 dazed_world) 1) = Some (ConfusedEnemy (Some (HostileEnemy [])) 1)"
    by (simp del: confused_ticks.simps)
  from two have "\<forall>k<length [0::nat, 4].
      confused_ticks (take (Suc k) [0, 4]) 1 dazed_world =
        snd (bump_perform
               (set_entity (confused_ticks (take k [0, 4]) 1 dazed_world) 1
                  ((heap (confused_ticks (take k [0, 4]) 1 dazed_world) 1)
                     \<lparr>e_ai := Some (ConfusedEnemy (Some (HostileEnemy [])) (2 - int k - 1))\<rparr>))
               1 (fst (directions ! ([0, 4] ! k mod 8))) (snd (directions ! ([0, 4] ! k mod 8))))"
    by blast
  then have "0 < length [0::nat, 4] \<longrightarrow>
      confused_ticks (take (Suc 0) [0, 4]) 1 dazed_world =
        snd (bump_perform
               (set_entity (confused_ticks (take 0 [0, 4]) 1 dazed_world) 1
                  ((heap (confused_ticks (take 0 [0, 4]) 1 dazed_world) 1)
                     \<lparr>e_ai := Some (ConfusedEnemy (Some (HostileEnemy [])) (2 - int 0 - 1))\<rparr>))
               1 (fst (directions ! ([0, 4] ! 0 mod 8))) (snd (directions ! ([0, 4] ! 0 mod 8))))"
    by blast
  then have bump: "confused_ticks [0] 1 dazed_world =
        snd (bump_perform
               (set_entity dazed_world 1
                  ((heap dazed_world 1)\<lparr>e_ai := Some (ConfusedEnemy (Some (HostileEnemy [])) 1)\<rparr>))
               1 (- 1) (- 1))"
    by (simp add: directions_def del: confused_ticks.simps(2))
  have moved: "e_x (heap (confused_ticks [0] 1 dazed_world) 1) = 4
     \<and> e_y (heap (confused_ticks [0] 1 dazed_world) 1) = 5"
    unfolding bump
    by (simp add: dazed_world_def demo_world_def demo_entity_def bump_perform_def target_actor_def
        dest_xy_def get_actor_at_location_def actors_def at_cell_def movement_perform_def in_bounds_def
        get_blocking_entity_at_location_def set_entity_def move_def Let_def)
  from one ends mid moved show ?thesis by blast
qed

text \<open>
  The claim as stated restores the saved strategy after exactly \<open>N\<close> ticks. With \<open>N = 1\<close>
  the orc is still confused after one tick and hostile again only after the second.
\<close>

theorem confused_still_confused_counterexample:
  "e_ai (heap confused_world 1) = Some (ConfusedEnemy (Some (HostileEnemy [])) 1)
   \<and> e_ai (heap (confused_ticks [0] 1 confused_world) 1) \<noteq> Some (HostileEnemy [])
   \<and> e_ai (heap (confused_ticks [0, 0] 1 confused_world) 1) = Some (HostileEnemy [])"
  by (simp add: confused_world_def demo_world_def demo_entity_def confused_perform_def directions_def
      bump_perform_def target_actor_def dest_xy_def get_actor_at_location_def actors_def at_cell_def
      movement_perform_def in_bounds_def get_blocking_entity_at_location_def set_entity_def move_def
      log_message_def add_message_def Let_def)

subsection \<open>Melee\<close>

lemma update_temporary_buffs_hp: "hp (fst (update_temporary_buffs f msgs)) = hp f"
  by (simp add: update_temporary_buffs_def Let_def)

text \<open>
  C3 (amended). A melee action with an actor at the destination does not raise. Its
  damage is \<open>power - defense\<close> of the fighters as they are before the attacker's
  timed-buff refresh; the refresh is then applied to the attacker. The damage is
  subtracted from the defender's hp once, and only when it is positive; otherwise the
  hp is unchanged and the no-damage message is logged. The defender's hp never increases.
\<close>

theorem melee_perform_damage:
  assumes "target_actor w a dx dy = Some t"
  shows "fst (melee_perform w a dx dy) = None
     \<and> hp (e_fighter (heap (snd (melee_perform w a dx dy)) t)) =
         (if power_of (e_fighter (heap w a)) - defense_of (e_fighter (heap w t)) > 0
          then hp (e_fighter (heap w t)) - (power_of (e_fighter (heap w a)) - defense_of (e_fighter (heap w t)))
          else hp (e_fighter (heap w t)))
     \<and> hp (e_fighter (heap (snd (melee_perform w a dx dy)) t)) \<le> hp (e_fighter (heap w t))
     \<and> e_fighter (heap (snd (melee_perform w a dx dy)) a) =
         (fst (update_temporary_buffs (e_fighter (heap w a)) (message_log w)))
           \<lparr>hp := hp (e_fighter (heap (snd (melee_perform w a dx dy)) a))\<rparr>
     \<and> message_log (snd (melee_perform w a dx dy)) =
         snd (update_temporary_buffs (e_fighter (heap w a)) (message_log w))
         @ [(capitalize (e_name (heap w a)) @ '' attacks '' @ e_name (heap w t)
              @ (if power_of (e_fighter (heap w a)) - defense_of (e_fighter (heap w t)) > 0
                 then '' for '' @ str_int (power_of (e_fighter (heap w a)) - defense_of (e_fighter (heap w t)))
                        @ '' hit points.''
                 else '' but does no damage.''),
             if a = player w then player_atk else enemy_atk)]"
  using assms
  by (auto simp: melee_perform_def Let_def set_entity_def log_message_def add_message_def
        update_temporary_buffs_hp)

theorem melee_perform_damage_witness:
  "target_actor demo_world 1 0 (- 1) = Some 0
   \<and> fst (melee_perform demo_world 1 0 (- 1)) = None
   \<and> hp (e_fighter (heap (snd (melee_perform demo_world 1 0 (- 1))) 0)) = 7"
proof -
  have found: "target_actor demo_world 1 0 (- 1) = Some 0"
    by (simp add: target_actor_def dest_xy_def get_actor_at_location_def actors_def at_cell_def
        demo_world_def demo_entity_def)
  have stats: "power_of (e_fighter (heap demo_world 1)) = 3" "defense_of (e_fighter (heap demo_world 0)) = 0"
    "hp (e_fighter (heap demo_world 0)) = 10"
    by (simp_all add: power_of_def defense_of_def demo_world_def demo_entity_def demo_fighter_def)
  from melee_perform_damage [OF found] found show ?thesis
    unfolding stats by simp
qed

text \<open>
  The claim as stated computes the damage after the refresh. The orc's strength buff
  expires in the refresh of this attack: the damage after the refresh would be 3, but
  the player loses 6 hit points.
\<close>

theorem melee_refresh_order_counterexample:
  "target_actor buffed_world 1 0 (- 1) = Some 0
   \<and> damage_after_refresh buffed_world 1 0 = 3
   \<and> hp (e_fighter (heap buffed_world 0)) = 10
   \<and> hp (e_fighter (heap (snd (melee_perform buffed_world 1 0 (- 1))) 0)) = 4"
  by (simp add: buffed_world_def demo_world_def demo_entity_def demo_fighter_def damage_after_refresh_def
      melee_perform_def target_actor_def dest_xy_def get_actor_at_location_def actors_def at_cell_def
      power_of_def defense_of_def update_temporary_buffs_def tick_buff_def expired_def set_entity_def
      log_message_def add_message_def Let_def)

subsection \<open>The cost grid of the path finder\<close>

lemma penalised_nonzero: "(1 + 10 * k :: 8 word) \<noteq> 0"
proof
  assume "1 + 10 * k = (0 :: 8 word)"
  moreover have "odd (1 + 10 * k :: 8 word)" by simp
  ultimately show False by simp
qed

lemma fold_entity_cost:
  assumes "cost c = (if walkable (gamemap w) c then 1 + 10 * of_nat k else 0)"
  shows "fold (add_entity_cost w) es cost c =
     (if walkable (gamemap w) c
      then 1 + 10 * of_nat (k + length (filter (\<lambda>r. e_blocks_movement (heap w r) \<and> at_cell w (fst c) (snd c) r) es))
      else 0)"
  using assms
proof (induction es arbitrary: cost k)
  case Nil
  then show ?case by simp
next
  case (Cons e es)
  show ?case
  proof (cases "e_blocks_movement (heap w e) \<and> at_cell w (fst c) (snd c) e")
    case True
    then have pos: "(e_x (heap w e), e_y (heap w e)) = c" by (auto simp: at_cell_def)
    have "add_entity_cost w e cost c = (if walkable (gamemap w) c then 1 + 10 * of_nat (Suc k) else 0)"
      using True pos Cons.prems penalised_nonzero [of "of_nat k"]
      by (auto simp: add_entity_cost_def Let_def)
    with Cons.IH [of "add_entity_cost w e cost" "Suc k"] True show ?thesis by simp
  next
    case False
    then have "add_entity_cost w e cost c = cost c"
      by (auto simp: add_entity_cost_def Let_def at_cell_def)
    with Cons.prems have "add_entity_cost w e cost c = (if walkable (gamemap w) c then 1 + 10 * of_nat k else 0)"
      by simp
    with Cons.IH [of "add_entity_cost w e cost" k] False show ?thesis by auto
  qed
qed

lemma path_cost_eq:
  "path_cost w c = (if walkable (gamemap w) c then 1 + 10 * of_nat (length (blockers_at w c)) else 0)"
proof -
  have "walkable_cost w c = (if walkable (gamemap w) c then 1 + 10 * of_nat 0 else 0)"
    by (simp add: walkable_cost_def)
  with fold_entity_cost [of "walkable_cost w" c w 0 "entities (gamemap w)"] show ?thesis
    by (simp add: path_cost_def blockers_at_def)
qed

text \<open>
  C9 (amended). In the cost grid a walkable tile costs 1 plus 10 for every
  movement-blocking entity of the map standing on it, the pathing actor on its own tile
  included (in 8-bit arithmetic), and a tile that is not walkable costs 0. So a tile
  with no blocking entity keeps the base cost, and a walkable tile with blocking
  entities gets the base cost plus 10 for each. The returned path is the route of the
  path finder without its first cell: without the start when the route begins there,
  and empty when the path finder answers with the destination alone, as it does when
  there is no route.
\<close>

theorem path_cost_penalty:
  "path_cost w c = (if walkable (gamemap w) c then 1 + 10 * of_nat (length (blockers_at w c)) else 0)
   \<and> (blockers_at w c = [] \<longrightarrow> path_cost w c = walkable_cost w c)
   \<and> (walkable (gamemap w) c \<and> blockers_at w c \<noteq> [] \<longrightarrow>
        path_cost w c = walkable_cost w c + 10 * of_nat (length (blockers_at w c)))
   \<and> (path_to (path_cost w) (e_x (heap w a), e_y (heap w a)) (dest_x, dest_y)
         = (e_x (heap w a), e_y (heap w a)) # route
        \<longrightarrow> get_path_to path_to w a dest_x dest_y = route)
   \<and> (path_to (path_cost w) (e_x (heap w a), e_y (heap w a)) (dest_x, dest_y) = [(dest_x, dest_y)]
        \<longrightarrow> get_path_to path_to w a dest_x dest_y = [])"
  by (simp add: path_cost_eq get_path_to_def walkable_cost_def)

lemma demo_blockers:
  "blockers_at demo_world (5, 6) = [1]" "blockers_at demo_world (5, 7) = []" "blockers_at walled_world (5, 7) = []"
  by (simp_all add: blockers_at_def walled_world_def demo_world_def demo_entity_def at_cell_def)

theorem path_cost_penalty_witness:
  "blockers_at demo_world (5, 7) = [] \<and> path_cost demo_world (5, 7) = 1
   \<and> walkable (gamemap demo_world) (5, 6) \<and> blockers_at demo_world (5, 6) \<noteq> []
   \<and> path_cost demo_world (5, 6) = 11
   \<and> get_path_to demo_path_to demo_world 1 5 7 = [(5, 7)]
   \<and> get_path_to demo_path_to walled_world 1 5 7 = []"
proof -
  have walk: "walkable (gamemap demo_world) (5, 6)" "walkable_cost demo_world (5, 6) = 1"
    "walkable_cost demo_world (5, 7) = 1" "\<not> walkable (gamemap walled_world) (5, 7)"
    by (simp_all add: walkable_cost_def walled_world_def demo_world_def)
  have pos: "e_x (heap demo_world 1) = 5" "e_y (heap demo_world 1) = 6"
    "e_x (heap walled_world 1) = 5" "e_y (heap walled_world 1) = 6"
    by (simp_all add: walled_world_def demo_world_def demo_entity_def)
  from path_cost_penalty [of demo_world "(5, 7)"] demo_blockers(2)
  have "path_cost demo_world (5, 7) = walkable_cost demo_world (5, 7)" by blast
  with walk(3) have a: "path_cost demo_world (5, 7) = 1" by simp
  have occupied: "blockers_at demo_world (5, 6) \<noteq> []" using demo_blockers(1) by simp
  from path_cost_penalty [of demo_world "(5, 6)"] walk(1) occupied
  have "path_cost demo_world (5, 6) = walkable_cost demo_world (5, 6) + 10 * of_nat (length (blockers_at demo_world (5, 6)))"
    by blast
  with walk(2) demo_blockers(1) have b: "path_cost demo_world (5, 6) = 11" by simp
  have "demo_path_to (path_cost demo_world) (e_x (heap demo_world 1), e_y (heap demo_world 1)) (5, 7)
         = (e_x (heap demo_world 1), e_y (heap demo_world 1)) # [(5, 7)]"
    by (simp add: demo_path_to_def a)
  with path_cost_penalty [of demo_world "(5, 7)" demo_path_to 1 5 7 "[(5, 7)]"]
  have c: "get_path_to demo_path_to demo_world 1 5 7 = [(5, 7)]" by blast
  from path_cost_penalty [of walled_world "(5, 7)"] demo_blockers(3)
  have "path_cost walled_world (5, 7) = walkable_cost walled_world (5, 7)" by blast
  with walk(4) have "path_cost walled_world (5, 7) = 0" by (simp add: walkable_cost_def)
  then have "demo_path_to (path_cost walled_world) (e_x (heap walled_world 1), e_y (heap walled_world 1)) (5, 7)
         = [(5, 7)]"
    by (simp add: demo_path_to_def)
  with path_cost_penalty [of walled_world "(5, 7)" demo_path_to 1 5 7]
  have d: "get_path_to demo_path_to walled_world 1 5 7 = []" by blast
  from a b c d walk(1) demo_blockers(2) occupied show ?thesis by blast
qed

text \<open>
  The claim as stated exempts the pathing actor. In the demo room the orc is the only
  blocking entity on its own, walkable, tile, whose cost is nevertheless 11, not the
  base cost 1.
\<close>

theorem path_cost_own_tile_counterexample:
  "blockers_at demo_world (e_x (heap demo_world 1), e_y (heap demo_world 1)) = [1]
   \<and> walkable (gamemap demo_world) (e_x (heap demo_world 1), e_y (heap demo_world 1))
   \<and> walkable_cost demo_world (e_x (heap demo_world 1), e_y (heap demo_world 1)) = 1
   \<and> path_cost demo_world (e_x (heap demo_world 1), e_y (heap demo_world 1)) = 11"
  by (simp add: blockers_at_def path_cost_def add_entity_cost_def walkable_cost_def at_cell_def
      demo_world_def demo_entity_def Let_def)

subsection \<open>The scheduler\<close>

lemma log_grows_refl: "log_grows w w"
  by (simp add: log_grows_def)

lemma log_grows_trans: "log_grows w w' \<Longrightarrow> log_grows w' w'' \<Longrightarrow> log_grows w w''"
  by (auto simp: log_grows_def)

lemma collide_log: "log_grows (snd s) (snd (collide x y s))"
  by (auto simp: log_grows_def collide_def check_collision_def Let_def set_entity_def log_message_def
        add_message_def split: option.splits)

lemma fold_log:
  assumes "\<And>a s. log_grows (snd s) (snd (f a s))"
  shows "log_grows (snd s) (snd (fold f xs s))"
proof (induction xs arbitrary: s)
  case Nil
  show ?case by (simp add: log_grows_refl)
next
  case (Cons a xs)
  from assms [of s a] Cons.IH [of "f a s"] show ?case
    by (simp add: log_grows_trans)
qed

lemma projectile_update_log: "log_grows (snd s) (snd (projectile_update s))"
proof -
  have "log_grows (snd s) (snd (collide x y (p, snd s)))" for x y p
    using collide_log [of "(p, snd s)" x y] by simp
  then show ?thesis
    by (simp add: projectile_update_def projectile_move_def Let_def log_grows_refl)
qed

lemma shockwave_update_log: "log_grows (snd s) (snd (shockwave_update s))"
proof -
  have "log_grows (snd (p, snd s)) (snd (fold collide_around ds (p, snd s)))" for p ds
    by (rule fold_log) (simp add: collide_around_def collide_log)
  then show ?thesis
    by (simp add: shockwave_update_def Let_def log_grows_refl)
qed

lemma cross_update_log: "log_grows (snd s) (snd (cross_update s))"
proof -
  have one: "log_grows (snd t) (snd (fold (\<lambda>dx. collide (cx + dx) cy) ds t))" for t cx cy ds
    by (rule fold_log) (simp add: collide_log)
  have two: "log_grows (snd t) (snd (fold (\<lambda>dy. collide cx (cy + dy)) ds t))" for t cx cy ds
    by (rule fold_log) (simp add: collide_log)
  have "log_grows (snd (p, snd s))
     (snd (fold (\<lambda>dy. collide cx (cy + dy)) ds' (fold (\<lambda>dx. collide (cx + dx) cy) ds (p, snd s))))"
    for p cx cy ds ds'
    using one [of "(p, snd s)" cx cy ds] two by (rule log_grows_trans)
  then show ?thesis
    by (simp add: cross_update_def Let_def log_grows_refl)
qed

lemma diagonal_update_log: "log_grows (snd s) (snd (diagonal_update s))"
proof -
  have "log_grows (snd (p, snd s)) (snd (fold (\<lambda>c. collide (cx + fst c) (cy + snd c)) ds (p, snd s)))"
    for p cx cy ds
    by (rule fold_log) (simp add: collide_log)
  then show ?thesis
    by (simp add: diagonal_update_def Let_def log_grows_refl)
qed

lemma update_log: "log_grows (snd s) (snd (update s))"
  by (cases "p_class (fst s)")
     (simp_all add: update_def projectile_update_log shockwave_update_log cross_update_log diagonal_update_log)

lemma update_each_log: "log_grows w (snd (update_each ps w))"
proof (induction ps arbitrary: w)
  case Nil
  show ?case by (simp add: log_grows_refl)
next
  case (Cons p ps)
  from update_log [of "(p, w)"] Cons.IH [of "snd (update (p, w))"] show ?case
    by (simp add: Let_def log_grows_trans)
qed

lemma update_projectiles_log: "log_grows w (update_projectiles w)"
  using update_each_log [of w "active_projectiles w"]
  by (simp add: update_projectiles_def Let_def log_grows_def)

lemma handle_enemy_turns_log:
  assumes "\<And>r w. log_grows w (perform_ai r w)"
  shows "log_grows w (handle_enemy_turns perform_ai w)"
proof -
  have "log_grows v (fold (\<lambda>entity w'. if e_ai (heap w' entity) \<noteq> None then perform_ai entity w' else w') rs v)"
    for rs v
  proof (induction rs arbitrary: v)
    case Nil
    show ?case by (simp add: log_grows_refl)
  next
    case (Cons r rs)
    have "log_grows v (if e_ai (heap v r) \<noteq> None then perform_ai r v else v)"
      by (simp add: assms log_grows_refl)
    with Cons.IH show ?case by (auto intro: log_grows_trans)
  qed
  then show ?thesis by (simp add: handle_enemy_turns_def)
qed

lemma spot_enemy_none: "spot_enemy e rs = None \<longleftrightarrow> (\<forall>r\<in>set rs. \<not> visible_enemy (world e) r)"
  by (induction rs) auto

lemma spot_enemy_some:
  "\<exists>r\<in>set rs. visible_enemy (world e) r \<Longrightarrow>
   spot_enemy e rs = Some (if game_state e = EXPLORATION
              then e\<lparr>game_state := TURN_BASED,
                     world := log_message (world e) ''Enemy spotted! Combat started.'' enemy_atk\<rparr>
              else e)"
proof (induction rs)
  case Nil
  then show ?case by simp
next
  case (Cons r rs)
  show ?case
  proof (cases "visible_enemy (world e) r")
    case True
    then show ?thesis by simp
  next
    case False
    with Cons.prems have "\<exists>r\<in>set rs. visible_enemy (world e) r" by simp
    from Cons.IH [OF this] False show ?thesis by simp
  qed
qed

lemma spot_enemy_first:
  "visible_enemy (world e) entity \<Longrightarrow> \<forall>r\<in>set before. \<not> visible_enemy (world e) r \<Longrightarrow>
   spot_enemy e (before @ entity # after) = spot_enemy e [entity]"
  by (induction before) auto

lemma not_exploration: "g \<noteq> EXPLORATION \<longleftrightarrow> g = TURN_BASED"
  by (cases g) auto

text \<open>
  C6. For every call of \<open>update_realtime\<close>, with decisions of the actors that only
  append to the log: if some actor other than the player with an AI strategy stands on a
  visible tile, the mode after the call is turn-based, and the log gains the
  enemy-spotted message exactly when the mode was exploration; if there is none, the
  mode after the call is exploration, and the log gains the combat-ended message (before
  anything else the call logs) exactly when the mode was turn-based. The scan stops at
  the first visible enemy: what it returns does not depend on the actors after it.
\<close>

theorem update_realtime_mode:
  assumes "\<And>r w. \<exists>ms. message_log (perform_ai r w) = message_log w @ ms"
  shows "((\<exists>r\<in>set (actors (world e)). visible_enemy (world e) r) \<longrightarrow>
            game_state (update_realtime perform_ai current_time e) = TURN_BASED
            \<and> message_log (world (update_realtime perform_ai current_time e)) =
                message_log (world e)
                @ (if game_state e = EXPLORATION then [(''Enemy spotted! Combat started.'', enemy_atk)] else []))
     \<and> (\<not> (\<exists>r\<in>set (actors (world e)). visible_enemy (world e) r) \<longrightarrow>
            game_state (update_realtime perform_ai current_time e) = EXPLORATION
            \<and> (\<exists>ms. message_log (world (update_realtime perform_ai current_time e)) =
                  message_log (world e)
                  @ (if game_state e = TURN_BASED then [(''Combat ended.'', welcome_text)] else []) @ ms))
     \<and> (\<forall>before entity after.
            visible_enemy (world e) entity \<and> (\<forall>r\<in>set before. \<not> visible_enemy (world e) r) \<longrightarrow>
            spot_enemy e (before @ entity # after) = spot_enemy e [entity])"
proof -
  have seen: "game_state (update_realtime perform_ai current_time e) = TURN_BASED
            \<and> message_log (world (update_realtime perform_ai current_time e)) =
                message_log (world e)
                @ (if game_state e = EXPLORATION then [(''Enemy spotted! Combat started.'', enemy_atk)] else [])"
    if "\<exists>r\<in>set (actors (world e)). visible_enemy (world e) r"
    using spot_enemy_some [OF that]
    by (simp add: update_realtime_def log_message_def add_message_def not_exploration)
  have unseen: "game_state (update_realtime perform_ai current_time e) = EXPLORATION
            \<and> (\<exists>ms. message_log (world (update_realtime perform_ai current_time e)) =
                  message_log (world e)
                  @ (if game_state e = TURN_BASED then [(''Combat ended.'', welcome_text)] else []) @ ms)"
    if "\<not> (\<exists>r\<in>set (actors (world e)). visible_enemy (world e) r)"
  proof -
    from that have none: "spot_enemy e (actors (world e)) = None"
      by (simp add: spot_enemy_none)
    define e1 where "e1 = (if game_state e = TURN_BASED
                     then e\<lparr>game_state := EXPLORATION,
                            world := log_message (world e) ''Combat ended.'' welcome_text\<rparr>
                     else e)"
    define e2 where "e2 = (if current_time - last_enemy_turn_time e1 \<ge> enemy_turn_interval e1
                     then e1\<lparr>world := handle_enemy_turns perform_ai (world e1),
                             last_enemy_turn_time := current_time\<rparr>
                     else e1)"
    have res: "update_realtime perform_ai current_time e = e2\<lparr>world := update_projectiles (world e2)\<rparr>"
      using none by (simp add: update_realtime_def e1_def e2_def Let_def)
    have ai: "log_grows w (perform_ai r w)" for r w
      using assms [of r w] by (simp add: log_grows_def)
    have g1: "game_state e1 = EXPLORATION"
      by (cases "game_state e") (simp_all add: e1_def)
    have l1: "message_log (world e1) = message_log (world e)
        @ (if game_state e = TURN_BASED then [(''Combat ended.'', welcome_text)] else [])"
      by (simp add: e1_def log_message_def add_message_def)
    have g2: "game_state e2 = EXPLORATION" using g1 by (simp add: e2_def)
    have "log_grows (world e1) (world e2)"
      using handle_enemy_turns_log [of perform_ai "world e1"] ai
      by (simp add: e2_def log_grows_refl)
    then have "log_grows (world e1) (update_projectiles (world e2))"
      using update_projectiles_log by (rule log_grows_trans)
    then obtain ms where "message_log (update_projectiles (world e2)) = message_log (world e1) @ ms"
      by (auto simp: log_grows_def)
    with l1 g2 res show ?thesis by simp
  qed
  from seen unseen spot_enemy_first show ?thesis by blast
qed

lemma demo_engine_scan:
  "\<exists>r\<in>set (actors (world demo_engine)). visible_enemy (world demo_engine) r"
  "\<not> (\<exists>r\<in>set (actors (world dark_engine)). visible_enemy (world dark_engine) r)"
  "visible_enemy (world demo_engine) 1 \<and> (\<forall>r\<in>set [0]. \<not> visible_enemy (world demo_engine) r)"
  by (simp_all add: demo_engine_def dark_engine_def combat_engine_def combat_world_def demo_world_def
      demo_entity_def actors_def visible_enemy_def)

theorem update_realtime_mode_witness:
  "game_state demo_engine = EXPLORATION
   \<and> game_state (update_realtime waiting_ai 2 demo_engine) = TURN_BASED
   \<and> message_log (world (update_realtime waiting_ai 2 demo_engine)) =
       [(''Enemy spotted! Combat started.'', enemy_atk)]
   \<and> game_state dark_engine = TURN_BASED
   \<and> game_state (update_realtime waiting_ai 2 dark_engine) = EXPLORATION
   \<and> (\<exists>ms. message_log (world (update_realtime waiting_ai 2 dark_engine)) =
         (''Combat ended.'', welcome_text) # ms)
   \<and> spot_enemy demo_engine ([0] @ 1 # [7]) = spot_enemy demo_engine [1]"
proof -
  have ai: "\<exists>ms. message_log (waiting_ai r w) = message_log w @ ms" for r w
    by (simp add: waiting_ai_def wait_perform_def)
  have start: "game_state demo_engine = EXPLORATION" "game_state dark_engine = TURN_BASED"
    "message_log (world demo_engine) = []" "message_log (world dark_engine) = []"
    by (simp_all add: demo_engine_def dark_engine_def combat_engine_def combat_world_def demo_world_def)
  note inst = update_realtime_mode [of waiting_ai, OF ai]
  from inst [of demo_engine 2] demo_engine_scan(1)
  have a: "game_state (update_realtime waiting_ai 2 demo_engine) = TURN_BASED
     \<and> message_log (world (update_realtime waiting_ai 2 demo_engine)) =
        message_log (world demo_engine)
        @ (if game_state demo_engine = EXPLORATION then [(''Enemy spotted! Combat started.'', enemy_atk)] else [])"
    by blast
  from inst [of dark_engine 2] demo_engine_scan(2)
  have b: "game_state (update_realtime waiting_ai 2 dark_engine) = EXPLORATION
     \<and> (\<exists>ms. message_log (world (update_realtime waiting_ai 2 dark_engine)) =
           message_log (world dark_engine)
           @ (if game_state dark_engine = TURN_BASED then [(''Combat ended.'', welcome_text)] else []) @ ms)"
    by blast
  from inst [of demo_engine 2] demo_engine_scan(3)
  have c: "spot_enemy demo_engine ([0] @ 1 # [7]) = spot_enemy demo_engine [1]"
    by blast
  from a b c start show ?thesis by simp
qed

text \<open>
  C5. The claim fails on the code: with a visible enemy, \<open>update_realtime\<close> returns
  from inside the scan and never reaches \<open>update_projectiles\<close>. In turn-based mode with
  the orc in view the call leaves the engine as it was, the projectile included, although
  one frame of \<open>update_projectiles\<close> moves that projectile and hits the orc, as the
  same call does when no tile is visible.
\<close>

theorem update_realtime_skips_projectiles:
  "visible_enemy (world combat_engine) 1
   \<and> active_projectiles (world combat_engine) = [demo_projectile]
   \<and> update_realtime waiting_ai 2 combat_engine = combat_engine
   \<and> active_projectiles (update_projectiles (world combat_engine)) =
       [demo_projectile\<lparr>p_y := 6, p_distance_travelled := 1, p_hit_actors := {1}\<rparr>]
   \<and> active_projectiles (world (update_realtime waiting_ai 2 dark_engine)) =
       [demo_projectile\<lparr>p_y := 6, p_distance_travelled := 1, p_hit_actors := {1}\<rparr>]"
  by (simp add: update_realtime_def update_projectiles_def handle_enemy_turns_def waiting_ai_def
      wait_perform_def dark_engine_def update_def projectile_update_def
      projectile_move_def collide_def check_collision_def in_bounds_def get_actor_at_location_def
      actors_def at_cell_def visible_enemy_def defense_of_def take_damage_def set_entity_def
      log_message_def add_message_def combat_engine_def demo_engine_def combat_world_def demo_world_def
      demo_entity_def demo_fighter_def demo_projectile_def Let_def)


end
